theory Spec2Isabelle
  imports Main "HOL-Library.Sublist" "HOL-Library.AList"
begin

section \<open>Python library functions used by test.py\<close>

text \<open>
  Strings are lists of characters. \<open>str.replace(old, new)\<close> scans from the left and
  replaces every non-overlapping occurrence of \<open>old\<close>; with an empty \<open>old\<close> Python
  inserts \<open>new\<close> before every character and at the end.
\<close>

function replace_from :: "string \<Rightarrow> string \<Rightarrow> string \<Rightarrow> string" where
  "replace_from old new [] = []"
| "replace_from old new (c # cs) =
     (if old \<noteq> [] \<and> prefix old (c # cs)
      then new @ replace_from old new (drop (length old) (c # cs))
      else c # replace_from old new cs)"
  by pat_completeness auto
termination
  by (relation "measure (\<lambda>(old, new, s). length s)") (auto simp: neq_Nil_conv)

definition py_replace :: "string \<Rightarrow> string \<Rightarrow> string \<Rightarrow> string" where
  "py_replace s old new =
     (if old = [] then new @ concat (map (\<lambda>c. c # new) s) else replace_from old new s)"

text \<open>\<open>str(n)\<close> for a Python int: decimal digits, with a minus sign below zero.\<close>

function str_nat :: "nat \<Rightarrow> string" where
  "str_nat n =
     (if n < 10 then [''0123456789'' ! n]
      else str_nat (n div 10) @ [''0123456789'' ! (n mod 10)])"
  by pat_completeness auto
termination
  by (relation "measure id") auto

definition str_int :: "int \<Rightarrow> string" where
  "str_int i = (if i < 0 then CHR ''-'' # str_nat (nat (- i)) else str_nat (nat i))"

text \<open>
  \<open>os.path.join(a, b)\<close>, \<open>os.path.basename\<close> and \<open>os.path.splitext\<close> of posixpath.
  \<open>join\<close> restarts at an absolute second component; \<open>splitext\<close> splits at the last
  dot of the last path component unless only dots precede it there.
\<close>

definition path_join :: "string \<Rightarrow> string \<Rightarrow> string" where
  "path_join a b =
     (if prefix ''/'' b then b
      else if a = [] \<or> suffix ''/'' a then a @ b
      else a @ ''/'' @ b)"

definition basename :: "string \<Rightarrow> string" where
  "basename p = rev (takeWhile (\<lambda>c. c \<noteq> CHR ''/'') (rev p))"

definition splitext :: "string \<Rightarrow> string \<times> string" where
  "splitext p =
     (let name = basename p;
          stem = rev (drop 1 (dropWhile (\<lambda>c. c \<noteq> CHR ''.'') (rev name)));
          k = length p - (length name - length stem)
      in if CHR ''.'' \<in> set name \<and> (\<exists>c \<in> set stem. c \<noteq> CHR ''.'')
         then (take k p, drop k p) else (p, []))"

section \<open>Configuration and the world the script acts on\<close>

text \<open>
  The three JSON files of \<open>conf/\<close> are not part of the sources; the keys test.py reads
  from \<open>definitions\<close> and \<open>variables\<close> are the fields of two records of strings.
  \<open>base\<close> is the directory of the script, \<open>os.path.dirname(os.path.abspath(__file__))\<close>.
\<close>

record definitions =
  input_file_ending :: string
  output_file_ending :: string
  user_output_directory :: string
  writers_directory :: string
  test_directory :: string
  finalio_directory :: string
  solution_naming :: string
  sample_case_extension :: string
  corner_case_extension :: string
  generated_case_extension :: string
  html_diff_naming :: string

record variables =
  var_filename :: string
  var_filename_less_extension :: string
  var_directory :: string
  var_problem_number :: string
  var_case_type :: string
  var_language :: string

text \<open>
  A value decoded by \<open>json.loads\<close>. A language block is a JSON object, a dict
  from keys to values in insertion order; \<open>languages\<close> is the list under the key
  \<open>'languages'\<close> of languages.json.
\<close>

datatype json =
    JString string
  | JList "json list"
  | JNumber int
  | JBool bool
  | JNull
  | JObject "(string \<times> json) list"

type_synonym language_block = "(string \<times> json) list"

text \<open>The exceptions the script can raise.\<close>

datatype py_error =
    KeyError string
  | AttributeError
  | TypeError
  | UnboundLocalError string
  | FileNotFoundError string
  | IndexError

text \<open>What the script prints, kept as the message and the values formatted into it.\<close>

datatype report =
    NotValidUser string
  | Failed string string int json
  | NoProblem string int
  | FailedGenerated string int string
  | ErrorCopying

text \<open>
  The file system as the script observes it: the regular files with their contents
  (\<open>os.path.isfile\<close>, \<open>open\<close>), the directories (\<open>os.path.isdir\<close>), the symbolic links
  (\<open>os.path.islink\<close>) and the directory listings (\<open>os.listdir\<close>), each keyed by the
  path string the script builds. \<open>out\<close> collects the printed reports and \<open>browser\<close>
  the files handed to \<open>webbrowser.open\<close>, both in order. Paths are compared as the
  strings the script builds; opening a file for writing and creating a directory are
  taken to succeed.
\<close>

record world =
  files :: "string \<Rightarrow> string option"
  dirs :: "string \<Rightarrow> bool"
  links :: "string \<Rightarrow> bool"
  listing :: "string \<Rightarrow> string list"
  out :: "report list"
  browser :: "string list"

definition isfile :: "world \<Rightarrow> string \<Rightarrow> bool" where
  "isfile w p = (files w p \<noteq> None)"

definition write_file :: "string \<Rightarrow> string \<Rightarrow> world \<Rightarrow> world" where
  "write_file p s w = w\<lparr>files := (files w)(p \<mapsto> s)\<rparr>"

definition makedirs :: "string \<Rightarrow> world \<Rightarrow> world" where
  "makedirs p w = w\<lparr>dirs := (dirs w)(p := True)\<rparr>"

definition print :: "report \<Rightarrow> world \<Rightarrow> world" where
  "print r w = w\<lparr>out := out w @ [r]\<rparr>"

section \<open>Paths test.py derives from the configuration\<close>

definition problemString :: "definitions \<Rightarrow> variables \<Rightarrow> int \<Rightarrow> string" where
  "problemString d v problem = py_replace (solution_naming d) (var_problem_number v) (str_int problem)"

definition userPath :: "string \<Rightarrow> string \<Rightarrow> string" where
  "userPath base user = path_join base user"

definition userOutputDirectory :: "definitions \<Rightarrow> string \<Rightarrow> string \<Rightarrow> string" where
  "userOutputDirectory d base user = path_join (userPath base user) (user_output_directory d)"

definition testPath :: "definitions \<Rightarrow> string \<Rightarrow> string" where
  "testPath d base = path_join base (test_directory d)"

definition sampleFile :: "definitions \<Rightarrow> variables \<Rightarrow> string \<Rightarrow> int \<Rightarrow> string" where
  "sampleFile d v base problem =
     path_join (testPath d base)
       (problemString d v problem @ sample_case_extension d @ ''.'' @ input_file_ending d)"

definition cornerFile :: "definitions \<Rightarrow> variables \<Rightarrow> string \<Rightarrow> int \<Rightarrow> string" where
  "cornerFile d v base problem =
     path_join (testPath d base)
       (problemString d v problem @ corner_case_extension d @ ''.'' @ input_file_ending d)"

definition generatedFile :: "definitions \<Rightarrow> variables \<Rightarrow> string \<Rightarrow> int \<Rightarrow> string" where
  "generatedFile d v base problem =
     path_join (testPath d base)
       (problemString d v problem @ generated_case_extension d @ ''.'' @ input_file_ending d)"

text \<open>
  In \<open>run_solution\<close>: the expected-output file of an input file, and the file the
  captured output is saved to.
\<close>

definition outputFile :: "definitions \<Rightarrow> string \<Rightarrow> string" where
  "outputFile d inputFile =
     py_replace inputFile (''.'' @ input_file_ending d) (''.'' @ output_file_ending d)"

definition saveOutputFile :: "definitions \<Rightarrow> string \<Rightarrow> string \<Rightarrow> string" where
  "saveOutputFile d outputDirectory inputFile =
     outputDirectory @ ''/'' @ basename (outputFile d inputFile)"

text \<open>In \<open>compare_generated_outputs\<close>: the file read for one user.\<close>

definition generatedPath :: "definitions \<Rightarrow> variables \<Rightarrow> string \<Rightarrow> int \<Rightarrow> string \<Rightarrow> string" where
  "generatedPath d v base problem user =
     path_join (userPath base user)
       (problemString d v problem @ generated_case_extension d @ ''.'' @ output_file_ending d)"

section \<open>compare_generated_outputs\<close>

definition read_generated :: "definitions \<Rightarrow> variables \<Rightarrow> string \<Rightarrow> world \<Rightarrow> int \<Rightarrow> string \<Rightarrow> string" where
  "read_generated d v base w problem user =
     (case files w (generatedPath d v base problem user) of None \<Rightarrow> [] | Some s \<Rightarrow> s)"

text \<open>
  The loop over the users; \<open>lastUser\<close> starts as \<open>(None, None)\<close> and holds the
  previous user and output afterwards.
\<close>

fun compare_loop ::
  "definitions \<Rightarrow> variables \<Rightarrow> string \<Rightarrow> int \<Rightarrow> (string \<times> string) option \<Rightarrow> string list \<Rightarrow> world
     \<Rightarrow> bool \<times> world" where
  "compare_loop d v base problem lastUser [] w = (True, w)"
| "compare_loop d v base problem lastUser (user # users) w =
     (let output = read_generated d v base w problem user in
      case lastUser of
        None \<Rightarrow> compare_loop d v base problem (Some (user, output)) users w
      | Some (lu, lo) \<Rightarrow>
          if output \<noteq> lo then (False, print (FailedGenerated lu problem user) w)
          else compare_loop d v base problem (Some (user, output)) users w)"

definition compare_generated_outputs ::
  "definitions \<Rightarrow> variables \<Rightarrow> string \<Rightarrow> int \<Rightarrow> string list \<Rightarrow> world \<Rightarrow> bool \<times> world" where
  "compare_generated_outputs d v base problem users w =
     compare_loop d v base problem None users w"

section \<open>Variable substitution\<close>

text \<open>
  \<open>replace_language_vars_individual\<close> calls \<open>string.replace\<close>: only a \<open>str\<close> has
  that method, any other value raises \<open>AttributeError\<close>.
\<close>

fun replace_language_vars_individual ::
  "variables \<Rightarrow> json \<Rightarrow> string \<Rightarrow> string \<Rightarrow> py_error + string" where
  "replace_language_vars_individual v (JString s) problemFile directory =
     (let filenameWithoutExtension = fst (splitext problemFile) in
      Inr (py_replace
             (py_replace (py_replace s (var_filename v) problemFile)
                (var_filename_less_extension v) filenameWithoutExtension)
             (var_directory v) directory))"
| "replace_language_vars_individual v _ problemFile directory = Inl AttributeError"

text \<open>The inner loop: \<open>newLanguageBlock[key].append(...)\<close> for every entry of a list.\<close>

fun append_entries ::
  "variables \<Rightarrow> string \<Rightarrow> string \<Rightarrow> json list \<Rightarrow> json list \<Rightarrow> py_error + json list" where
  "append_entries v problemFile directory [] acc = Inr acc"
| "append_entries v problemFile directory (listEntry # rest) acc =
     (case replace_language_vars_individual v listEntry problemFile directory of
        Inl e \<Rightarrow> Inl e
      | Inr s \<Rightarrow> append_entries v problemFile directory rest (acc @ [JString s]))"

text \<open>
  The outer loop over \<open>languageBlock.items()\<close>; \<open>new\<close> is \<open>newLanguageBlock\<close>, a
  dict assignment is \<open>AList.update\<close> (in place for a key already there, at the end for
  a new one).
\<close>

fun replace_items ::
  "variables \<Rightarrow> string \<Rightarrow> string \<Rightarrow> language_block \<Rightarrow> language_block
     \<Rightarrow> py_error + language_block" where
  "replace_items v problemFile directory [] new = Inr new"
| "replace_items v problemFile directory ((key, languageItem) # rest) new =
     (case languageItem of
        JList entries \<Rightarrow>
          (let new1 = (if map_of new key = None then AList.update key (JList []) new else new) in
           case map_of new1 key of
             Some (JList l) \<Rightarrow>
               (case append_entries v problemFile directory entries l of
                  Inl e \<Rightarrow> Inl e
                | Inr l' \<Rightarrow>
                    replace_items v problemFile directory rest (AList.update key (JList l') new1))
           | _ \<Rightarrow>
               (if entries = [] then replace_items v problemFile directory rest new1
                else Inl AttributeError))
      | _ \<Rightarrow>
          (case replace_language_vars_individual v languageItem problemFile directory of
             Inl e \<Rightarrow> Inl e
           | Inr s \<Rightarrow>
               replace_items v problemFile directory rest (AList.update key (JString s) new)))"

definition replace_language_vars ::
  "variables \<Rightarrow> language_block \<Rightarrow> string \<Rightarrow> string \<Rightarrow> py_error + language_block" where
  "replace_language_vars v languageBlock problemFile directory =
     replace_items v problemFile directory languageBlock []"

definition get_source_extension :: "language_block \<Rightarrow> py_error + json" where
  "get_source_extension languageBlock =
     (case map_of languageBlock ''compileExtension'' of
        Some x \<Rightarrow> Inr x
      | None \<Rightarrow>
          (case map_of languageBlock ''runExtension'' of
             Some x \<Rightarrow> Inr x
           | None \<Rightarrow> Inl (KeyError ''runExtension'')))"

section \<open>Compiling and running a solution\<close>

text \<open>
  The subprocesses are parameters. \<open>call argv\<close> is \<open>subprocess.call\<close>: the exit
  status of the command, and what the command did to the world. \<open>check_output argv
  stdin\<close> is the run of a command on the contents of the input file: its exit status and
  its standard output decoded as UTF-8; \<open>subprocess.check_output\<close> raises
  \<open>CalledProcessError\<close> when the status is not zero. \<open>make_diff a b\<close> is
  \<open>difflib.HtmlDiff().make_file(a.splitlines(), b.splitlines())\<close>.
\<close>

record env =
  call :: "string list \<Rightarrow> world \<Rightarrow> int \<times> world"
  check_output :: "string list \<Rightarrow> string \<Rightarrow> world \<Rightarrow> (int \<times> string) \<times> world"
  make_diff :: "string \<Rightarrow> string \<Rightarrow> string"

record run =
  userOutput :: string
  correctOutput :: string
  inputFile :: string

text \<open>
  \<open>list.extend(x)\<close> appends the elements of a list, the characters of a string or
  the keys of a dict; any other value is not iterable.
\<close>

fun extend_with :: "json \<Rightarrow> py_error + json list" where
  "extend_with (JList l) = Inr l"
| "extend_with (JString s) = Inr (map (\<lambda>c. JString [c]) s)"
| "extend_with (JObject kvs) = Inr (map (\<lambda>kv. JString (fst kv)) kvs)"
| "extend_with _ = Inl TypeError"

text \<open>A command line handed to \<open>subprocess\<close> must consist of strings.\<close>

fun argv_strings :: "json list \<Rightarrow> py_error + string list" where
  "argv_strings [] = Inr []"
| "argv_strings (JString s # rest) =
     (case argv_strings rest of Inl e \<Rightarrow> Inl e | Inr ss \<Rightarrow> Inr (s # ss))"
| "argv_strings (_ # rest) = Inl TypeError"

definition command_of :: "language_block \<Rightarrow> string \<Rightarrow> string \<Rightarrow> py_error + json list" where
  "command_of block commandKey argumentsKey =
     (case map_of block commandKey of
        None \<Rightarrow> Inl (KeyError commandKey)
      | Some c \<Rightarrow>
          (case map_of block argumentsKey of
             None \<Rightarrow> Inl (KeyError argumentsKey)
           | Some a \<Rightarrow>
               (case extend_with a of Inl e \<Rightarrow> Inl e | Inr args \<Rightarrow> Inr (c # args))))"

definition compile_solution ::
  "env \<Rightarrow> language_block \<Rightarrow> world \<Rightarrow> py_error + bool \<times> world" where
  "compile_solution e convertedLanguageBlock w =
     (if map_of convertedLanguageBlock ''compileExtension'' \<noteq> None then
        (case command_of convertedLanguageBlock ''compileCommand'' ''compileArguments'' of
           Inl err \<Rightarrow> Inl err
         | Inr compileCommand \<Rightarrow>
             (case argv_strings compileCommand of
                Inl err \<Rightarrow> Inl err
              | Inr argv \<Rightarrow>
                  (let (status, w') = call e argv w in
                   if status \<noteq> 0 then Inr (False, w') else Inr (True, w'))))
      else Inr (True, w))"

text \<open>
  The loop of \<open>run_solution\<close>. \<open>captured\<close> holds the local variables \<open>output\<close>
  and \<open>outputFileContents\<close>: unbound (\<open>None\<close>) until a run has succeeded, and the
  values of the latest successful run afterwards. The handler of
  \<open>CalledProcessError\<close> reads both. The loop returns its local state; \<open>run_solution\<close>
  returns the results.
\<close>

fun run_loop ::
  "env \<Rightarrow> definitions \<Rightarrow> json list \<Rightarrow> string \<Rightarrow> string list \<Rightarrow> (string \<times> string) option
     \<Rightarrow> run list \<Rightarrow> world \<Rightarrow> py_error + (string \<times> string) option \<times> run list \<times> world" where
  "run_loop e d runCommand outputDirectory [] captured results w = Inr (captured, results, w)"
| "run_loop e d runCommand outputDirectory (inputFile' # rest) captured results w =
     (case files w inputFile' of
        None \<Rightarrow> Inl (FileNotFoundError inputFile')
      | Some stdin \<Rightarrow>
          (case argv_strings runCommand of
             Inl err \<Rightarrow> Inl err
           | Inr argv \<Rightarrow>
               (let ((status, output), w1) = check_output e argv stdin w in
                if status = 0 then
                  (let w2 = write_file (saveOutputFile d outputDirectory inputFile') output w1;
                       outputFileContents =
                         (case files w2 (outputFile d inputFile') of
                            None \<Rightarrow> output
                          | Some contents \<Rightarrow> contents)
                   in run_loop e d runCommand outputDirectory rest
                        (Some (output, outputFileContents))
                        (results @ [\<lparr>userOutput = output, correctOutput = outputFileContents,
                                      inputFile = inputFile'\<rparr>])
                        w2)
                else
                  (case captured of
                     None \<Rightarrow> Inl (UnboundLocalError ''output'')
                   | Some (output', outputFileContents') \<Rightarrow>
                       run_loop e d runCommand outputDirectory rest captured
                         (results @ [\<lparr>userOutput = output', correctOutput = outputFileContents',
                                       inputFile = inputFile'\<rparr>])
                         w1))))"

definition run_solution ::
  "env \<Rightarrow> definitions \<Rightarrow> language_block \<Rightarrow> string \<Rightarrow> string list \<Rightarrow> world
     \<Rightarrow> py_error + run list \<times> world" where
  "run_solution e d convertedLanguageBlock outputDirectory inputFiles w =
     (case command_of convertedLanguageBlock ''runCommand'' ''runArguments'' of
        Inl err \<Rightarrow> Inl err
      | Inr runCommand \<Rightarrow>
          (case run_loop e d runCommand outputDirectory inputFiles None [] w of
             Inl err \<Rightarrow> Inl err
           | Inr (captured, results, w') \<Rightarrow> Inr (results, w')))"

section \<open>test_solution\<close>

text \<open>\<open>str.lower()\<close> on ASCII letters.\<close>

definition lower_char :: "char \<Rightarrow> char" where
  "lower_char c =
     (case map_of (zip ''ABCDEFGHIJKLMNOPQRSTUVWXYZ'' ''abcdefghijklmnopqrstuvwxyz'') c of
        None \<Rightarrow> c
      | Some l \<Rightarrow> l)"

definition lower :: "string \<Rightarrow> string" where
  "lower s = map lower_char s"

definition writersPath :: "definitions \<Rightarrow> string \<Rightarrow> string" where
  "writersPath d base = path_join base (writers_directory d)"

definition itemType :: "definitions \<Rightarrow> variables \<Rightarrow> string \<Rightarrow> int \<Rightarrow> run \<Rightarrow> string" where
  "itemType d v base problem r =
     (if inputFile r = sampleFile d v base problem then ''SAMPLE'' else ''CORNER'')"

definition diffFile ::
  "definitions \<Rightarrow> variables \<Rightarrow> string \<Rightarrow> int \<Rightarrow> string \<Rightarrow> string \<Rightarrow> string \<Rightarrow> string" where
  "diffFile d v base problem user itemType' language =
     path_join (userOutputDirectory d base user)
       (py_replace
          (py_replace
             (py_replace (html_diff_naming d) (var_case_type v) (lower itemType'))
             (var_language v) language)
          (var_problem_number v) (str_int problem))"

text \<open>
  The loop over \<open>results.runs\<close>, with the counter \<open>numCorrectRuns\<close>. The report line
  reads \<open>convertedLanguageBlock['language']\<close>; the name of the diff file passes it to
  \<open>str.replace\<close>, which takes a string only.
\<close>

fun report_loop ::
  "env \<Rightarrow> definitions \<Rightarrow> variables \<Rightarrow> string \<Rightarrow> int \<Rightarrow> string \<Rightarrow> bool \<Rightarrow> bool
     \<Rightarrow> language_block \<Rightarrow> run list \<Rightarrow> nat \<Rightarrow> world \<Rightarrow> py_error + nat \<times> world" where
  "report_loop e d v base problem user generateHTML openHTML conv [] numCorrectRuns w =
     Inr (numCorrectRuns, w)"
| "report_loop e d v base problem user generateHTML openHTML conv (r # rest) numCorrectRuns w =
     (if userOutput r \<noteq> correctOutput r then
        (case map_of conv ''language'' of
           None \<Rightarrow> Inl (KeyError ''language'')
         | Some language \<Rightarrow>
             (let w1 = print (Failed (itemType d v base problem r) user problem language) w in
              if generateHTML then
                (case language of
                   JString l \<Rightarrow>
                     (let diffContents = make_diff e (userOutput r) (correctOutput r);
                          f = diffFile d v base problem user (itemType d v base problem r) l;
                          w2 = write_file f diffContents w1;
                          w3 = (if openHTML then w2\<lparr>browser := browser w2 @ [f]\<rparr> else w2)
                      in report_loop e d v base problem user generateHTML openHTML conv rest
                           numCorrectRuns w3)
                 | _ \<Rightarrow> Inl TypeError)
              else report_loop e d v base problem user generateHTML openHTML conv rest
                     numCorrectRuns w1))
      else report_loop e d v base problem user generateHTML openHTML conv rest
             (numCorrectRuns + 1) w)"

text \<open>
  The body run for a file of the user that matches a language: substitute, compile,
  and, if the compilation succeeded, run and report. The result says whether
  \<open>numCorrectSolutions\<close> is incremented.
\<close>

definition attempt_body ::
  "env \<Rightarrow> definitions \<Rightarrow> variables \<Rightarrow> string \<Rightarrow> int \<Rightarrow> string \<Rightarrow> bool \<Rightarrow> bool
     \<Rightarrow> string list \<Rightarrow> string \<Rightarrow> language_block \<Rightarrow> world \<Rightarrow> py_error + bool \<times> world" where
  "attempt_body e d v base problem user generateHTML openHTML inputFileList possibleSolution
       languageBlock w =
     (case replace_language_vars v languageBlock possibleSolution (userPath base user) of
        Inl err \<Rightarrow> Inl err
      | Inr conv \<Rightarrow>
          (case compile_solution e conv w of
             Inl err \<Rightarrow> Inl err
           | Inr (compiled, w1) \<Rightarrow>
               if compiled then
                 (case run_solution e d conv (userOutputDirectory d base user) inputFileList w1 of
                    Inl err \<Rightarrow> Inl err
                  | Inr (results, w2) \<Rightarrow>
                      (case report_loop e d v base problem user generateHTML openHTML conv
                              results 0 w2 of
                         Inl err \<Rightarrow> Inl err
                       | Inr (numCorrectRuns, w3) \<Rightarrow>
                           Inr (numCorrectRuns = length results, w3)))
               else Inr (False, w1)))"

text \<open>
  The two nested loops, over \<open>os.listdir(userPath)\<close> and over the languages, visit
  the pairs of \<open>List.product\<close> in its order; the listing is read once, before the first
  iteration. The counters are \<open>numSolutions\<close> and \<open>numCorrectSolutions\<close>.
\<close>

fun solution_loop ::
  "env \<Rightarrow> definitions \<Rightarrow> variables \<Rightarrow> string \<Rightarrow> int \<Rightarrow> string \<Rightarrow> bool \<Rightarrow> bool
     \<Rightarrow> string list \<Rightarrow> (string \<times> language_block) list \<Rightarrow> nat \<times> nat \<Rightarrow> world
     \<Rightarrow> py_error + (nat \<times> nat) \<times> world" where
  "solution_loop e d v base problem user generateHTML openHTML inputFileList [] counters w =
     Inr (counters, w)"
| "solution_loop e d v base problem user generateHTML openHTML inputFileList
       ((possibleSolution, languageBlock) # rest) (numSolutions, numCorrectSolutions) w =
     (case get_source_extension languageBlock of
        Inl err \<Rightarrow> Inl err
      | Inr (JString extension) \<Rightarrow>
          if possibleSolution = problemString d v problem @ ''.'' @ extension then
            (case attempt_body e d v base problem user generateHTML openHTML inputFileList
                    possibleSolution languageBlock w of
               Inl err \<Rightarrow> Inl err
             | Inr (correct, w') \<Rightarrow>
                 solution_loop e d v base problem user generateHTML openHTML inputFileList rest
                   (numSolutions + 1,
                    if correct then numCorrectSolutions + 1 else numCorrectSolutions) w')
          else solution_loop e d v base problem user generateHTML openHTML inputFileList rest
                 (numSolutions, numCorrectSolutions) w
      | Inr _ \<Rightarrow> Inl TypeError)"

definition valid_user :: "definitions \<Rightarrow> string \<Rightarrow> string \<Rightarrow> world \<Rightarrow> bool" where
  "valid_user d base user w =
     (dirs w (userPath base user) \<and> links w (path_join (writersPath d base) user))"

definition ensure_output_directory :: "definitions \<Rightarrow> string \<Rightarrow> string \<Rightarrow> world \<Rightarrow> world" where
  "ensure_output_directory d base user w =
     (if \<not> dirs w (userOutputDirectory d base user)
      then makedirs (userOutputDirectory d base user) w else w)"

definition inputFileList ::
  "definitions \<Rightarrow> variables \<Rightarrow> string \<Rightarrow> int \<Rightarrow> bool \<Rightarrow> bool \<Rightarrow> world \<Rightarrow> string list" where
  "inputFileList d v base problem skipSample skipCorner w =
     (if \<not> skipSample \<and> isfile w (sampleFile d v base problem)
      then [sampleFile d v base problem] else []) @
     (if \<not> skipCorner \<and> isfile w (cornerFile d v base problem)
      then [cornerFile d v base problem] else []) @
     (if isfile w (generatedFile d v base problem)
      then [generatedFile d v base problem] else [])"

definition test_solution ::
  "env \<Rightarrow> definitions \<Rightarrow> variables \<Rightarrow> language_block list \<Rightarrow> string \<Rightarrow> int \<Rightarrow> string
     \<Rightarrow> bool \<Rightarrow> bool \<Rightarrow> bool \<Rightarrow> bool \<Rightarrow> world \<Rightarrow> py_error + bool \<times> world" where
  "test_solution e d v languages base problem user skipSample skipCorner generateHTML openHTML w =
     (if \<not> valid_user d base user w then Inr (False, print (NotValidUser user) w)
      else
        (let w1 = ensure_output_directory d base user w in
         case solution_loop e d v base problem user generateHTML openHTML
                (inputFileList d v base problem skipSample skipCorner w1)
                (List.product (listing w1 (userPath base user)) languages) (0, 0) w1 of
           Inl err \<Rightarrow> Inl err
         | Inr ((numSolutions, numCorrectSolutions), w2) \<Rightarrow>
             if numSolutions = 0 then Inr (False, print (NoProblem user problem) w2)
             else if numCorrectSolutions = numSolutions then Inr (True, w2)
             else Inr (False, w2)))"

section \<open>copy_to_final_io\<close>

definition finalDirectory :: "definitions \<Rightarrow> string \<Rightarrow> string" where
  "finalDirectory d base = path_join base (finalio_directory d)"

definition copyList :: "definitions \<Rightarrow> variables \<Rightarrow> string \<Rightarrow> int \<Rightarrow> string \<Rightarrow> string list" where
  "copyList d v base problem user =
     [path_join (testPath d base)
        (problemString d v problem @ sample_case_extension d @ ''.'' @ input_file_ending d),
      path_join (testPath d base)
        (problemString d v problem @ sample_case_extension d @ ''.'' @ output_file_ending d),
      path_join (testPath d base)
        (problemString d v problem @ corner_case_extension d @ ''.'' @ input_file_ending d),
      path_join (testPath d base)
        (problemString d v problem @ corner_case_extension d @ ''.'' @ output_file_ending d),
      path_join (testPath d base)
        (problemString d v problem @ generated_case_extension d @ ''.'' @ input_file_ending d),
      path_join (path_join (userPath base user) (user_output_directory d))
        (problemString d v problem @ generated_case_extension d @ ''.'' @ output_file_ending d)]"

text \<open>
  \<open>shutil.copy(src, dst)\<close> with a directory \<open>dst\<close> writes the contents of \<open>src\<close> to
  the file named as \<open>src\<close> in \<open>dst\<close>, and raises when \<open>src\<close> cannot be opened.
\<close>

definition copy_dest :: "string \<Rightarrow> string \<Rightarrow> string" where
  "copy_dest dst src = path_join dst (basename src)"

fun copy_all :: "string \<Rightarrow> string list \<Rightarrow> world \<Rightarrow> py_error + world" where
  "copy_all dst [] w = Inr w"
| "copy_all dst (fileToCopy # rest) w =
     (case files w fileToCopy of
        None \<Rightarrow> Inl (FileNotFoundError fileToCopy)
      | Some contents \<Rightarrow> copy_all dst rest (write_file (copy_dest dst fileToCopy) contents w))"

text \<open>The first loop: \<open>return False\<close> at the first file of the list that is missing.\<close>

fun all_exist :: "world \<Rightarrow> string list \<Rightarrow> bool" where
  "all_exist w [] = True"
| "all_exist w (fileToCopy # rest) = (if \<not> isfile w fileToCopy then False else all_exist w rest)"

definition copy_to_final_io ::
  "definitions \<Rightarrow> variables \<Rightarrow> string \<Rightarrow> int \<Rightarrow> string \<Rightarrow> world \<Rightarrow> py_error + bool \<times> world" where
  "copy_to_final_io d v base problem user w =
     (if \<not> all_exist w (copyList d v base problem user) then Inr (False, w)
      else
        (let w1 = (if \<not> dirs w (finalDirectory d base) then makedirs (finalDirectory d base) w
                   else w)
         in case copy_all (finalDirectory d base) (copyList d v base problem user) w1 of
              Inl err \<Rightarrow> Inl err
            | Inr w2 \<Rightarrow> Inr (True, w2)))"

section \<open>The driver\<close>

text \<open>
  The body of the loop over \<open>problemsToDo\<close>. Besides the world it returns the stages
  the driver went through for the problem, in order: a call of \<open>test_solution\<close> with
  its verdict, the call of \<open>compare_generated_outputs\<close> with its verdict, the call of
  \<open>copy_to_final_io\<close> with the user passed and its verdict. An exception ends the
  script; the stages completed before it are still returned.
\<close>

datatype stage =
    Tested string bool
  | Compared bool
  | Promoted string bool

fun test_people ::
  "env \<Rightarrow> definitions \<Rightarrow> variables \<Rightarrow> language_block list \<Rightarrow> string \<Rightarrow> int
     \<Rightarrow> bool \<Rightarrow> bool \<Rightarrow> bool \<Rightarrow> bool \<Rightarrow> string list \<Rightarrow> nat \<Rightarrow> stage list \<Rightarrow> world
     \<Rightarrow> stage list \<times> (py_error + nat \<times> world)" where
  "test_people e d v languages base problem skipsample skipcorner htmldiffs openhtml []
       passingPeople trace w = (trace, Inr (passingPeople, w))"
| "test_people e d v languages base problem skipsample skipcorner htmldiffs openhtml
       (person # rest) passingPeople trace w =
     (case test_solution e d v languages base problem person skipsample skipcorner htmldiffs
             openhtml w of
        Inl err \<Rightarrow> (trace, Inl err)
      | Inr (passed, w') \<Rightarrow>
          test_people e d v languages base problem skipsample skipcorner htmldiffs openhtml rest
            (if passed then passingPeople + 1 else passingPeople)
            (trace @ [Tested person passed]) w')"

definition main_problem ::
  "env \<Rightarrow> definitions \<Rightarrow> variables \<Rightarrow> language_block list \<Rightarrow> string \<Rightarrow> bool \<Rightarrow> bool
     \<Rightarrow> bool \<Rightarrow> bool \<Rightarrow> string list \<Rightarrow> int \<Rightarrow> world \<Rightarrow> stage list \<times> (py_error + world)" where
  "main_problem e d v languages base skipsample skipcorner htmldiffs openhtml peopleToTest
       problem w =
     (case test_people e d v languages base problem skipsample skipcorner htmldiffs openhtml
             peopleToTest 0 [] w of
        (trace, Inl err) \<Rightarrow> (trace, Inl err)
      | (trace, Inr (passingPeople, w1)) \<Rightarrow>
          if passingPeople = length peopleToTest then
            (let (consistent, w2) = compare_generated_outputs d v base problem peopleToTest w1 in
             if consistent then
               (case peopleToTest of
                  [] \<Rightarrow> (trace @ [Compared True], Inl IndexError)
                | first # _ \<Rightarrow>
                    (case copy_to_final_io d v base problem first w2 of
                       Inl err \<Rightarrow> (trace @ [Compared True], Inl err)
                     | Inr (copied, w3) \<Rightarrow>
                         (trace @ [Compared True, Promoted first copied],
                          Inr (if \<not> copied then print ErrorCopying w3 else w3))))
             else (trace @ [Compared False], Inr w2))
          else (trace, Inr w1))"

text \<open>The loop over \<open>problemsToDo\<close>: the traces of the problems, one after the other.\<close>

fun main_loop ::
  "env \<Rightarrow> definitions \<Rightarrow> variables \<Rightarrow> language_block list \<Rightarrow> string \<Rightarrow> bool \<Rightarrow> bool
     \<Rightarrow> bool \<Rightarrow> bool \<Rightarrow> string list \<Rightarrow> int list \<Rightarrow> world
     \<Rightarrow> (int \<times> stage list) list \<times> (py_error + world)" where
  "main_loop e d v languages base skipsample skipcorner htmldiffs openhtml peopleToTest [] w =
     ([], Inr w)"
| "main_loop e d v languages base skipsample skipcorner htmldiffs openhtml peopleToTest
       (problem # rest) w =
     (case main_problem e d v languages base skipsample skipcorner htmldiffs openhtml
             peopleToTest problem w of
        (trace, Inl err) \<Rightarrow> ([(problem, trace)], Inl err)
      | (trace, Inr w') \<Rightarrow>
          (let (traces, outcome) =
                 main_loop e d v languages base skipsample skipcorner htmldiffs openhtml
                   peopleToTest rest w'
           in ((problem, trace) # traces, outcome)))"

section \<open>Notions the statements use\<close>

text \<open>The number of separators in a path.\<close>

definition seps :: "string \<Rightarrow> nat" where
  "seps p = length (filter (\<lambda>c. c = CHR ''/'') p)"

text \<open>
  A configuration in the style of the repository: problem 1 is solved in \<open>p1.py\<close>,
  its cases are \<open>p1_sample.in\<close>, \<open>p1_corner.in\<close> and \<open>p1_generated.in\<close>, and the
  placeholders are names in braces.
\<close>

definition demo_definitions :: definitions where
  "demo_definitions = \<lparr> input_file_ending = ''in'', output_file_ending = ''out'',
     user_output_directory = ''output'', writers_directory = ''writers'',
     test_directory = ''tests'', finalio_directory = ''finalio'',
     solution_naming = ''p{n}'', sample_case_extension = ''_sample'',
     corner_case_extension = ''_corner'', generated_case_extension = ''_generated'',
     html_diff_naming = ''diff_{type}_{lang}_{n}.html'' \<rparr>"

definition demo_variables :: variables where
  "demo_variables = \<lparr> var_filename = ''{filename}'',
     var_filename_less_extension = ''{filename_less_extension}'',
     var_directory = ''{directory}'', var_problem_number = ''{n}'',
     var_case_type = ''{type}'', var_language = ''{lang}'' \<rparr>"

definition demo_python :: language_block where
  "demo_python =
     [(''language'', JString ''python3''), (''runExtension'', JString ''py''),
      (''runCommand'', JString ''python3''),
      (''runArguments'', JList [JString ''{directory}/{filename}''])]"

definition empty_world :: world where
  "empty_world = \<lparr> files = (\<lambda>p. None), dirs = (\<lambda>p. False), links = (\<lambda>p. False),
     listing = (\<lambda>p. []), out = [], browser = [] \<rparr>"

text \<open>
  A world with the user alice, her solution of problem 1, the three cases of the
  problem with the expected output of the first two, and her saved generated output.
\<close>

definition demo_world :: world where
  "demo_world = \<lparr>
     files = [''/srv/dev/tests/p1_sample.in'' \<mapsto> ''5'',
              ''/srv/dev/tests/p1_sample.out'' \<mapsto> ''5'',
              ''/srv/dev/tests/p1_corner.in'' \<mapsto> ''0'',
              ''/srv/dev/tests/p1_corner.out'' \<mapsto> ''0'',
              ''/srv/dev/tests/p1_generated.in'' \<mapsto> ''42'',
              ''/srv/dev/alice/output/p1_generated.out'' \<mapsto> ''42'',
              ''/srv/dev/alice/p1.py'' \<mapsto> ''import sys; print(sys.stdin.read())''],
     dirs = (\<lambda>p. p \<in> {''/srv/dev/alice'', ''/srv/dev/alice/output'', ''/srv/dev/tests'',
                         ''/srv/dev/writers''}),
     links = (\<lambda>p. p = ''/srv/dev/writers/alice''),
     listing = (\<lambda>p. if p = ''/srv/dev/alice'' then [''notes.txt'', ''p1.py'', ''output''] else []),
     out = [], browser = [] \<rparr>"

text \<open>
  Subprocesses for the examples: every command exits with status 0 and leaves the
  world alone, and a run prints its input unchanged.
\<close>

definition demo_env :: env where
  "demo_env = \<lparr> call = (\<lambda>argv w. (0, w)),
     check_output = (\<lambda>argv stdin w. ((0, stdin), w)),
     make_diff = (\<lambda>a b. a @ ''|'' @ b) \<rparr>"

text \<open>
  The Solution Attempts of the specification. A file of the user's directory is a
  solution found for the problem when its name is the naming pattern of the problem
  followed by a dot and the source extension of a language; each such pair of a file
  and a language is one attempt. An attempt either fails to compile or yields the
  batch of its runs, and it is correct when it ran and every run of the batch matches
  the expected output.
\<close>

datatype attempt = CompileFailed | Ran "run list"

fun attempt_correct :: "attempt \<Rightarrow> bool" where
  "attempt_correct CompileFailed = False"
| "attempt_correct (Ran results) = (\<forall>r \<in> set results. userOutput r = correctOutput r)"

definition is_solution :: "definitions \<Rightarrow> variables \<Rightarrow> int \<Rightarrow> string \<times> language_block \<Rightarrow> bool" where
  "is_solution d v problem = (\<lambda>(possibleSolution, languageBlock).
     case get_source_extension languageBlock of
       Inr (JString extension) \<Rightarrow> possibleSolution = problemString d v problem @ ''.'' @ extension
     | _ \<Rightarrow> False)"

definition solutions_found ::
  "definitions \<Rightarrow> variables \<Rightarrow> language_block list \<Rightarrow> string \<Rightarrow> int \<Rightarrow> string \<Rightarrow> world
     \<Rightarrow> (string \<times> language_block) list" where
  "solutions_found d v languages base problem user w =
     filter (is_solution d v problem) (List.product (listing w (userPath base user)) languages)"

text \<open>
  What one attempt does to the world and how it ends: substitution, compilation, and
  after a successful compilation the runs and their reports.
\<close>

definition attempt_outcome ::
  "env \<Rightarrow> definitions \<Rightarrow> variables \<Rightarrow> string \<Rightarrow> int \<Rightarrow> string \<Rightarrow> bool \<Rightarrow> bool
     \<Rightarrow> string list \<Rightarrow> string \<times> language_block \<Rightarrow> world \<Rightarrow> py_error + attempt \<times> world" where
  "attempt_outcome e d v base problem user generateHTML openHTML inputs solution w =
     (case replace_language_vars v (snd solution) (fst solution) (userPath base user) of
        Inl err \<Rightarrow> Inl err
      | Inr conv \<Rightarrow>
          (case compile_solution e conv w of
             Inl err \<Rightarrow> Inl err
           | Inr (compiled, w1) \<Rightarrow>
               if \<not> compiled then Inr (CompileFailed, w1)
               else
                 (case run_solution e d conv (userOutputDirectory d base user) inputs w1 of
                    Inl err \<Rightarrow> Inl err
                  | Inr (results, w2) \<Rightarrow>
                      (case report_loop e d v base problem user generateHTML openHTML conv
                              results 0 w2 of
                         Inl err \<Rightarrow> Inl err
                       | Inr (n, w3) \<Rightarrow> Inr (Ran results, w3)))))"

fun run_attempts ::
  "env \<Rightarrow> definitions \<Rightarrow> variables \<Rightarrow> string \<Rightarrow> int \<Rightarrow> string \<Rightarrow> bool \<Rightarrow> bool
     \<Rightarrow> string list \<Rightarrow> (string \<times> language_block) list \<Rightarrow> world
     \<Rightarrow> py_error + attempt list \<times> world" where
  "run_attempts e d v base problem user generateHTML openHTML inputs [] w = Inr ([], w)"
| "run_attempts e d v base problem user generateHTML openHTML inputs (solution # rest) w =
     (case attempt_outcome e d v base problem user generateHTML openHTML inputs solution w of
        Inl err \<Rightarrow> Inl err
      | Inr (a, w') \<Rightarrow>
          (case run_attempts e d v base problem user generateHTML openHTML inputs rest w' of
             Inl err \<Rightarrow> Inl err
           | Inr (as, w'') \<Rightarrow> Inr (a # as, w'')))"

text \<open>
  Templates with delimited placeholders: a template is a sequence of literal text and
  holes, written out with the markers of the variables table; filling the holes at once
  gives the text the substitution is meant to produce.
\<close>

datatype placeholder = Filename | FilenameLessExtension | Directory

datatype piece = Lit string | Hole placeholder

fun marker :: "variables \<Rightarrow> placeholder \<Rightarrow> string" where
  "marker v Filename = var_filename v"
| "marker v FilenameLessExtension = var_filename_less_extension v"
| "marker v Directory = var_directory v"

fun pvalue :: "string \<Rightarrow> string \<Rightarrow> placeholder \<Rightarrow> string" where
  "pvalue problemFile directory Filename = problemFile"
| "pvalue problemFile directory FilenameLessExtension = fst (splitext problemFile)"
| "pvalue problemFile directory Directory = directory"

fun render :: "variables \<Rightarrow> piece list \<Rightarrow> string" where
  "render v [] = []"
| "render v (Lit s # ps) = s @ render v ps"
| "render v (Hole k # ps) = marker v k @ render v ps"

fun fill :: "string \<Rightarrow> string \<Rightarrow> piece list \<Rightarrow> string" where
  "fill problemFile directory [] = []"
| "fill problemFile directory (Lit s # ps) = s @ fill problemFile directory ps"
| "fill problemFile directory (Hole k # ps) =
     pvalue problemFile directory k @ fill problemFile directory ps"

text \<open>The replacements of the placeholders \<open>ks\<close>, one after the other in this order.\<close>

definition replace_in_order ::
  "variables \<Rightarrow> string \<Rightarrow> string \<Rightarrow> placeholder list \<Rightarrow> string \<Rightarrow> string" where
  "replace_in_order v problemFile directory ks s =
     fold (\<lambda>k t. py_replace t (marker v k) (pvalue problemFile directory k)) ks s"

text \<open>One placeholder filled in a template, the others left as holes.\<close>

definition fill_one :: "string \<Rightarrow> string \<Rightarrow> placeholder \<Rightarrow> piece list \<Rightarrow> piece list" where
  "fill_one problemFile directory k ps =
     map (\<lambda>p. if p = Hole k then Lit (pvalue problemFile directory k) else p) ps"

text \<open>
  The substitution of the three placeholders in one string, as
  \<open>replace_language_vars_individual\<close> chains it, and its extension to the values of a
  language block: a string, or a list of strings.
\<close>

definition substitute :: "variables \<Rightarrow> string \<Rightarrow> string \<Rightarrow> string \<Rightarrow> string" where
  "substitute v problemFile directory s =
     py_replace
       (py_replace (py_replace s (var_filename v) problemFile)
          (var_filename_less_extension v) (fst (splitext problemFile)))
       (var_directory v) directory"

fun is_string :: "json \<Rightarrow> bool" where
  "is_string (JString s) = True"
| "is_string _ = False"

fun substitutable :: "json \<Rightarrow> bool" where
  "substitutable (JString s) = True"
| "substitutable (JList entries) = (\<forall>x \<in> set entries. is_string x)"
| "substitutable _ = False"

fun substituted :: "variables \<Rightarrow> string \<Rightarrow> string \<Rightarrow> json \<Rightarrow> json" where
  "substituted v problemFile directory (JString s) = JString (substitute v problemFile directory s)"
| "substituted v problemFile directory (JList entries) =
     JList (map (substituted v problemFile directory) entries)"
| "substituted v problemFile directory x = x"

text \<open>
  Delimited placeholders: every marker starts with the character \<open>m\<close>, which occurs
  nowhere else in it, and no marker is a prefix of another. A template is plain when
  \<open>m\<close> does not occur in its literal text.
\<close>

definition placeholders :: "placeholder list" where
  "placeholders = [Filename, FilenameLessExtension, Directory]"

definition delimited :: "char \<Rightarrow> variables \<Rightarrow> bool" where
  "delimited m v \<longleftrightarrow>
     list_all (\<lambda>k. case marker v k of [] \<Rightarrow> False | c # t \<Rightarrow> c = m \<and> m \<notin> set t) placeholders \<and>
     list_all (\<lambda>k. list_all (\<lambda>k'. k = k' \<or> \<not> prefix (marker v k) (marker v k')) placeholders)
       placeholders"

definition plain :: "char \<Rightarrow> piece list \<Rightarrow> bool" where
  "plain m ps = list_all (\<lambda>p. case p of Lit s \<Rightarrow> m \<notin> set s | Hole k \<Rightarrow> True) ps"

text \<open>
  The language block of the example after substitution for alice's \<open>p1.py\<close>, and
  subprocesses whose every run exits with status 1.
\<close>

definition demo_converted :: language_block where
  "demo_converted =
     [(''language'', JString ''python3''), (''runExtension'', JString ''py''),
      (''runCommand'', JString ''python3''),
      (''runArguments'', JList [JString ''/srv/dev/alice/p1.py''])]"

definition failing_env :: env where
  "failing_env = demo_env\<lparr>check_output := (\<lambda>argv stdin w. ((1, []), w))\<rparr>"

text \<open>The exception raised, or the value returned, by a call.\<close>

definition raised :: "py_error + 'a \<Rightarrow> py_error option" where
  "raised x = (case x of Inl err \<Rightarrow> Some err | Inr y \<Rightarrow> None)"

definition returned :: "py_error + 'a \<times> world \<Rightarrow> 'a option" where
  "returned x = (case x of Inl err \<Rightarrow> None | Inr (y, w) \<Rightarrow> Some y)"

section \<open>Facts about the library functions\<close>

lemma basename_no_sep: "CHR ''/'' \<notin> set (basename p)"
proof -
  have "\<forall>c \<in> set (takeWhile (\<lambda>c. c \<noteq> CHR ''/'') (rev p)). c \<noteq> CHR ''/''"
    by (metis (mono_tags, lifting) set_takeWhileD)
  then show ?thesis by (auto simp: basename_def)
qed

lemma not_prefix_free: "c \<notin> set n \<Longrightarrow> \<not> prefix [c] n"
  by (cases n) auto

lemma seps_append: "seps (a @ b) = seps a + seps b"
  by (simp add: seps_def)

lemma seps_free: "CHR ''/'' \<notin> set p \<Longrightarrow> seps p = 0"
  by (induction p) (auto simp: seps_def)

lemma seps_path_join:
  "\<not> prefix ''/'' b \<Longrightarrow>
   seps (path_join a b) = seps a + (if a = [] \<or> suffix ''/'' a then 0 else 1) + seps b"
  by (simp add: path_join_def seps_def)

lemma raisedD: "raised x = Some err \<Longrightarrow> x = Inl err"
  by (cases x) (simp_all add: raised_def)

lemma returnedD: "returned x = Some y \<Longrightarrow> \<exists>w. x = Inr (y, w)"
  by (cases x) (auto simp: returned_def)

lemmas path_simps =
  problemString_def userPath_def userOutputDirectory_def testPath_def sampleFile_def
  cornerFile_def generatedFile_def outputFile_def saveOutputFile_def generatedPath_def
  writersPath_def finalDirectory_def copyList_def copy_dest_def
  path_join_def basename_def py_replace_def str_int_def suffix_to_prefix

lemmas demo_simps =
  demo_definitions_def demo_variables_def demo_python_def empty_world_def demo_world_def
  demo_env_def

section \<open>The consistency check\<close>

lemma compare_loop_Some:
  "fst (compare_loop d v base problem (Some (lu, lo)) users w) \<longleftrightarrow>
     (\<forall>u \<in> set users. read_generated d v base w problem u = lo)"
proof (induction users arbitrary: lu)
  case Nil
  show ?case by simp
next
  case (Cons user users)
  show ?case
  proof (cases "read_generated d v base w problem user = lo")
    case True
    then show ?thesis using Cons.IH [of user] by simp
  next
    case False
    then show ?thesis by simp
  qed
qed

lemma compare_generated_outputs_all_equal:
  "fst (compare_generated_outputs d v base problem users w) \<longleftrightarrow>
     (\<forall>u \<in> set users. \<forall>u' \<in> set users.
        read_generated d v base w problem u = read_generated d v base w problem u')"
proof (cases users)
  case Nil
  then show ?thesis by (simp add: compare_generated_outputs_def)
next
  case (Cons user rest)
  have "fst (compare_generated_outputs d v base problem users w) \<longleftrightarrow>
        (\<forall>u \<in> set rest. read_generated d v base w problem u = read_generated d v base w problem user)"
    using compare_loop_Some [of d v base problem user "read_generated d v base w problem user" rest w]
    by (simp add: compare_generated_outputs_def Cons)
  also have "\<dots> \<longleftrightarrow> (\<forall>u \<in> set users. \<forall>u' \<in> set users.
        read_generated d v base w problem u = read_generated d v base w problem u')"
    unfolding Cons by (metis set_ConsD list.set_intros(1) list.set_intros(2))
  finally show ?thesis .
qed

text \<open>
  Claim C2. The consistency check is to read the generated-case output each user's run
  saved and to accept exactly when all of them are equal. The comparison itself is
  right (\<open>compare_generated_outputs_all_equal\<close>), but the file read is
  \<open>generatedPath\<close>, directly under the user's directory, while \<open>run_solution\<close> saves
  to \<open>saveOutputFile\<close> under the user's output directory, where \<open>copy_to_final_io\<close>
  looks for it too. Here alice's saved output is \<open>1\<close> and bob's is \<open>2\<close>, and the
  check accepts.
\<close>

theorem compare_generated_outputs_misses_saved:
  "let w = empty_world\<lparr>files :=
             [''/srv/dev/alice/output/p1_generated.out'' \<mapsto> ''1'',
              ''/srv/dev/bob/output/p1_generated.out'' \<mapsto> ''2'']\<rparr>;
       saved = (\<lambda>user. files w (saveOutputFile demo_definitions
                  (userOutputDirectory demo_definitions ''/srv/dev'' user)
                  (generatedFile demo_definitions demo_variables ''/srv/dev'' 1)))
   in saved ''alice'' = Some ''1'' \<and> saved ''bob'' = Some ''2'' \<and>
      fst (compare_generated_outputs demo_definitions demo_variables ''/srv/dev'' 1
             [''alice'', ''bob''] w) = True"
  by (simp add: demo_simps path_simps compare_generated_outputs_def read_generated_def Let_def)

section \<open>The path read by the consistency check\<close>

text \<open>
  Claim C9, as stated: for every non-empty \<open>user_output_directory\<close> the path the
  consistency check reads differs from the path the run stage writes. It fails when
  the configured output directory is the absolute path of the user's own directory:
  \<open>os.path.join\<close> restarts at an absolute component, and both paths are
  \<open>/srv/dev/alice/p1_generated.out\<close>.
\<close>

theorem generatedPath_counterexample:
  "let d = demo_definitions\<lparr>user_output_directory := ''/srv/dev/alice''\<rparr> in
     user_output_directory d \<noteq> [] \<and>
     generatedPath d demo_variables ''/srv/dev'' 1 ''alice'' =
     saveOutputFile d (userOutputDirectory d ''/srv/dev'' ''alice'')
       (generatedFile d demo_variables ''/srv/dev'' 1)"
  by (simp add: demo_simps path_simps Let_def)

text \<open>
  Claim C9, amended: when \<open>user_output_directory\<close> is non-empty and relative, and
  the name of the generated-case output file (naming pattern, generated-case
  extension, dot, output ending) contains no separator, the path read by
  \<open>compare_generated_outputs\<close> differs from the path \<open>run_solution\<close> writes for the
  generated case of the same user: the written path has more separators.
\<close>

theorem generatedPath_not_saved:
  assumes "user_output_directory d \<noteq> []"
    and "\<not> prefix ''/'' (user_output_directory d)"
    and "CHR ''/'' \<notin> set (problemString d v problem @ generated_case_extension d @ ''.'' @ output_file_ending d)"
  shows "generatedPath d v base problem user \<noteq>
         saveOutputFile d (userOutputDirectory d base user) (generatedFile d v base problem)"
proof -
  let ?n = "problemString d v problem @ generated_case_extension d @ ''.'' @ output_file_ending d"
  let ?U = "userPath base user"
  let ?k = "if ?U = [] \<or> suffix ''/'' ?U then 0 else 1 :: nat"
  have n: "\<not> prefix ''/'' ?n" by (rule not_prefix_free [OF assms(3)])
  have "seps (generatedPath d v base problem user) = seps ?U + ?k"
    unfolding generatedPath_def using seps_path_join [OF n, of ?U] seps_free [OF assms(3)] by simp
  moreover have "seps (saveOutputFile d (userOutputDirectory d base user) (generatedFile d v base problem))
      = seps ?U + ?k + seps (user_output_directory d) + 1"
    unfolding saveOutputFile_def userOutputDirectory_def
    using seps_path_join [OF assms(2), of ?U] seps_free [OF basename_no_sep]
    by (simp add: seps_append) (simp add: seps_def)
  ultimately show ?thesis by auto
qed

theorem generatedPath_not_saved_witness:
  "generatedPath demo_definitions demo_variables ''/srv/dev'' 1 ''alice'' \<noteq>
     saveOutputFile demo_definitions (userOutputDirectory demo_definitions ''/srv/dev'' ''alice'')
       (generatedFile demo_definitions demo_variables ''/srv/dev'' 1)"
  using generatedPath_not_saved [of demo_definitions demo_variables 1 "''/srv/dev''" "''alice''"]
  by (simp add: demo_simps path_simps)

section \<open>Finalization\<close>










section \<open>The driver's gates\<close>

lemma test_people_trace:
  assumes "test_people e d v languages base problem sS sC hD oH people p tr w = (tr', res)"
  shows "\<exists>bs. tr' = tr @ map (\<lambda>(person, b). Tested person b) (zip people bs) \<and>
           length bs \<le> length people \<and>
           (\<forall>p' w'. res = Inr (p', w') \<longrightarrow>
              length bs = length people \<and> p' = p + length (filter (\<lambda>b. b) bs))"
  using assms
proof (induction people arbitrary: p tr w)
  case Nil
  then show ?case by auto
next
  case (Cons person rest)
  show ?case
  proof (cases "test_solution e d v languages base problem person sS sC hD oH w")
    case (Inl err)
    with Cons.prems have "tr' = tr" "res = Inl err" by simp_all
    then show ?thesis by (intro exI [of _ "[]"]) simp
  next
    case (Inr r)
    obtain passed w1 where r: "r = (passed, w1)" by (cases r)
    from Cons.prems Inr r
    have "test_people e d v languages base problem sS sC hD oH rest
            (if passed then p + 1 else p) (tr @ [Tested person passed]) w1 = (tr', res)"
      by simp
    from Cons.IH [OF this] obtain bs where bs:
      "tr' = (tr @ [Tested person passed]) @ map (\<lambda>(person, b). Tested person b) (zip rest bs)"
      "length bs \<le> length rest"
      "\<forall>p' w'. res = Inr (p', w') \<longrightarrow>
         length bs = length rest \<and> p' = (if passed then p + 1 else p) + length (filter (\<lambda>b. b) bs)"
      by blast
    show ?thesis
      using bs by (intro exI [of _ "passed # bs"]) auto
  qed
qed

lemma all_passed:
  assumes "length (filter (\<lambda>b. b) bs) = length bs"
  shows "\<forall>b \<in> set bs. b"
  using assms by (metis length_filter_less nat_neq_iff)

lemma tested_trace:
  assumes "length bs = length people" and "\<forall>b \<in> set bs. b"
  shows "(\<forall>person \<in> set people.
           Tested person True \<in> set (map (\<lambda>(person, b). Tested person b) (zip people bs))) \<and>
         (\<forall>person. Tested person False \<notin> set (map (\<lambda>(person, b). Tested person b) (zip people bs)))"
proof -
  have z: "zip people bs = map (\<lambda>person. (person, True)) people"
    using assms
  proof (induction people arbitrary: bs)
    case Nil
    then show ?case by simp
  next
    case (Cons a people)
    then show ?case by (cases bs) auto
  qed
  show ?thesis unfolding z by auto
qed

lemma main_problem_stages:
  assumes "main_problem e d v languages base sS sC hD oH people problem w = (trace, outcome)"
  shows "((\<exists>b. Compared b \<in> set trace) \<longrightarrow>
            (\<forall>person \<in> set people. Tested person True \<in> set trace) \<and>
            (\<forall>person. Tested person False \<notin> set trace)) \<and>
         (\<forall>u b. Promoted u b \<in> set trace \<longrightarrow>
            Compared True \<in> set trace \<and> people \<noteq> [] \<and> u = hd people) \<and>
         ((\<exists>person. Tested person False \<in> set trace) \<longrightarrow>
            (\<forall>b. Compared b \<notin> set trace) \<and> (\<forall>u b. Promoted u b \<notin> set trace))"
proof -
  obtain tr res where tp:
    "test_people e d v languages base problem sS sC hD oH people 0 [] w = (tr, res)"
    by (cases "test_people e d v languages base problem sS sC hD oH people 0 [] w")
  from test_people_trace [OF tp] obtain bs where bs:
    "tr = map (\<lambda>(person, b). Tested person b) (zip people bs)"
    "\<forall>p' w'. res = Inr (p', w') \<longrightarrow> length bs = length people \<and> p' = length (filter (\<lambda>b. b) bs)"
    by auto
  have plain: "\<forall>b. Compared b \<notin> set tr" "\<forall>u b. Promoted u b \<notin> set tr"
    unfolding bs(1) by auto
  show ?thesis
  proof (cases res)
    case (Inl err)
    with assms tp have "trace = tr" by (simp add: main_problem_def)
    with plain show ?thesis by simp
  next
    case (Inr r)
    obtain passing w1 where r: "r = (passing, w1)" by (cases r)
    show ?thesis
    proof (cases "passing = length people")
      case False
      with assms tp Inr r have "trace = tr" by (simp add: main_problem_def)
      with plain show ?thesis by simp
    next
      case True
      with bs(2) Inr r have "length bs = length people" "length (filter (\<lambda>b. b) bs) = length bs"
        by simp_all
      from tested_trace [OF this(1) all_passed [OF this(2)]]
      have ok: "\<forall>person \<in> set people. Tested person True \<in> set tr"
               "\<forall>person. Tested person False \<notin> set tr"
        unfolding bs(1) by blast+
      obtain consistent w2 where c:
        "compare_generated_outputs d v base problem people w1 = (consistent, w2)"
        by (cases "compare_generated_outputs d v base problem people w1")
      have "trace = tr @ [Compared False] \<or> trace = tr @ [Compared True] \<or>
            (people \<noteq> [] \<and> (\<exists>copied. trace = tr @ [Compared True, Promoted (hd people) copied]))"
        using assms tp Inr r True c
        by (auto simp: main_problem_def split: list.splits sum.splits if_splits)
      then show ?thesis using ok plain by auto
    qed
  qed
qed

lemma main_loop_traces:
  assumes "(problem, trace) \<in>
             set (fst (main_loop e d v languages base sS sC hD oH people problems w))"
  shows "\<exists>w0 outcome.
           main_problem e d v languages base sS sC hD oH people problem w0 = (trace, outcome)"
  using assms
proof (induction problems arbitrary: w)
  case Nil
  then show ?case by simp
next
  case (Cons p problems)
  obtain tr res where mp: "main_problem e d v languages base sS sC hD oH people p w = (tr, res)"
    by (cases "main_problem e d v languages base sS sC hD oH people p w")
  show ?case
  proof (cases res)
    case (Inl err)
    with Cons.prems mp have "problem = p" "trace = tr" by simp_all
    with mp show ?thesis by blast
  next
    case (Inr w1)
    obtain traces outcome where
      ml: "main_loop e d v languages base sS sC hD oH people problems w1 = (traces, outcome)"
      by (cases "main_loop e d v languages base sS sC hD oH people problems w1")
    from Cons.prems mp Inr ml
    have "(problem, trace) = (p, tr) \<or> (problem, trace) \<in> set traces" by simp
    then show ?thesis
    proof
      assume "(problem, trace) = (p, tr)"
      with mp show ?thesis by blast
    next
      assume "(problem, trace) \<in> set traces"
      then have "(problem, trace) \<in>
                   set (fst (main_loop e d v languages base sS sC hD oH people problems w1))"
        using ml by simp
      from Cons.IH [OF this] show ?thesis .
    qed
  qed
qed

text \<open>
  Claim C8. In the trace the driver leaves for each problem of \<open>problemsToDo\<close>: the
  consistency check appears only when every tested person passed \<open>test_solution\<close>;
  finalization appears only after a consistency check that returned True, and its user
  is the first person of the list; and when some person failed, neither the
  consistency check nor the finalization appears.
\<close>

theorem main_loop_gating:
  assumes "(problem, trace) \<in>
             set (fst (main_loop e d v languages base skipsample skipcorner htmldiffs openhtml
                         peopleToTest problemsToDo w))"
  shows "((\<exists>b. Compared b \<in> set trace) \<longrightarrow>
            (\<forall>person \<in> set peopleToTest. Tested person True \<in> set trace) \<and>
            (\<forall>person. Tested person False \<notin> set trace)) \<and>
         (\<forall>u b. Promoted u b \<in> set trace \<longrightarrow>
            Compared True \<in> set trace \<and> peopleToTest \<noteq> [] \<and> u = hd peopleToTest) \<and>
         ((\<exists>person. Tested person False \<in> set trace) \<longrightarrow>
            (\<forall>b. Compared b \<notin> set trace) \<and> (\<forall>u b. Promoted u b \<notin> set trace))"
proof -
  from main_loop_traces [OF assms] obtain w0 outcome where
    "main_problem e d v languages base skipsample skipcorner htmldiffs openhtml peopleToTest
       problem w0 = (trace, outcome)"
    by blast
  then show ?thesis by (rule main_problem_stages)
qed

lemma demo_traces:
  "fst (main_loop demo_env demo_definitions demo_variables [demo_python] ''/srv/dev''
          False False False False [''alice''] [1] demo_world) =
     [(1, [Tested ''alice'' True, Compared True, Promoted ''alice'' True])]"
  by code_simp

theorem main_loop_gating_witness:
  "let trace = [Tested ''alice'' True, Compared True, Promoted ''alice'' True]
   in (1, trace) \<in> set (fst (main_loop demo_env demo_definitions demo_variables [demo_python]
                                ''/srv/dev'' False False False False [''alice''] [1] demo_world)) \<and>
      Compared True \<in> set trace \<and> Promoted ''alice'' True \<in> set trace \<and>
      (\<forall>person \<in> set [''alice'']. Tested person True \<in> set trace) \<and>
      (\<forall>person. Tested person False \<notin> set trace) \<and> ''alice'' = hd [''alice'']"
  using main_loop_gating
    [of 1 "[Tested ''alice'' True, Compared True, Promoted ''alice'' True]"
        demo_env demo_definitions demo_variables "[demo_python]" "''/srv/dev''"
        False False False False "[''alice'']" "[1]" demo_world]
  unfolding demo_traces by simp

section \<open>Substitution in a language block\<close>

lemma individual_cases:
  "replace_language_vars_individual v x pf dir =
     (case x of JString s \<Rightarrow> Inr (substitute v pf dir s) | _ \<Rightarrow> Inl AttributeError)"
  by (cases x) (simp_all add: substitute_def)

lemma append_entries_strings:
  assumes "\<forall>x \<in> set entries. is_string x"
  shows "append_entries v pf dir entries acc = Inr (acc @ map (substituted v pf dir) entries)"
  using assms
proof (induction entries arbitrary: acc)
  case Nil
  show ?case by simp
next
  case (Cons x entries)
  then obtain s where "x = JString s" by (cases x) auto
  then show ?case using Cons by (simp add: substitute_def)
qed

lemma update_fresh: "k \<notin> fst ` set al \<Longrightarrow> AList.update k x al = al @ [(k, x)]"
  by (induction al) auto

lemma update_last: "k \<notin> fst ` set al \<Longrightarrow> AList.update k x (al @ [(k, y)]) = al @ [(k, x)]"
  by (induction al) auto

lemma map_of_fresh: "k \<notin> fst ` set al \<Longrightarrow> map_of al k = None"
  by (simp add: map_of_eq_None_iff)

lemma replace_items_ok:
  assumes "distinct (map fst new @ map fst items)"
    and "\<forall>kx \<in> set items. substitutable (snd kx)"
  shows "replace_items v pf dir items new =
         Inr (new @ map (\<lambda>kx. (fst kx, substituted v pf dir (snd kx))) items)"
  using assms
proof (induction items arbitrary: new)
  case Nil
  show ?case by simp
next
  case (Cons kx items)
  obtain key item where kx: "kx = (key, item)" by (cases kx)
  from Cons.prems(1) kx have fresh: "key \<notin> fst ` set new" by auto
  have rest: "\<forall>kx \<in> set items. substitutable (snd kx)" using Cons.prems(2) by simp
  have dist: "distinct (map fst (new @ [(key, y)]) @ map fst items)" for y
    using Cons.prems(1) kx by auto
  from Cons.prems(2) kx have sub: "substitutable item" by simp
  show ?case
  proof (cases item)
    case (JString s)
    then show ?thesis
      using kx Cons.IH [OF dist rest] update_fresh [OF fresh]
      by (simp add: substitute_def)
  next
    case (JList entries)
    with sub have str: "\<forall>x \<in> set entries. is_string x" by simp
    have 1: "map_of new key = None" by (rule map_of_fresh [OF fresh])
    have 2: "map_of (new @ [(key, JList [])]) key = Some (JList [])"
      using 1 by (simp add: map_add_def)
    show ?thesis
      using kx JList 1 2 Cons.IH [OF dist rest] update_fresh [OF fresh] update_last [OF fresh]
        append_entries_strings [OF str]
      by simp
  qed (use sub in simp_all)
qed

lemma append_entries_error:
  "append_entries v pf dir entries acc = Inl err \<Longrightarrow> err = AttributeError"
  by (induction entries arbitrary: acc) (auto simp: individual_cases split: json.splits)

lemma append_entries_result:
  "append_entries v pf dir entries acc = Inr r \<Longrightarrow> \<forall>x \<in> set entries. is_string x"
  by (induction entries arbitrary: acc) (auto simp: individual_cases split: json.splits)

lemma replace_items_error:
  "replace_items v pf dir items new = Inl err \<Longrightarrow> err = AttributeError"
proof (induction items arbitrary: new)
  case Nil
  then show ?case by simp
next
  case (Cons kx items)
  obtain key item where kx: "kx = (key, item)" by (cases kx)
  show ?case
    using Cons.prems Cons.IH kx
    by (cases item)
       (auto simp: Let_def individual_cases split: option.splits json.splits sum.splits if_splits
             dest: append_entries_error)
qed

lemma replace_items_result:
  "replace_items v pf dir items new = Inr r \<Longrightarrow> \<forall>kx \<in> set items. substitutable (snd kx)"
proof (induction items arbitrary: new)
  case Nil
  then show ?case by simp
next
  case (Cons kx items)
  obtain key item where kx: "kx = (key, item)" by (cases kx)
  show ?case
    using Cons.prems Cons.IH kx
    by (cases item)
       (auto simp: Let_def individual_cases split: option.splits json.splits sum.splits if_splits
             dest: append_entries_result)
qed

text \<open>
  Claim C5, amended: for a language block with distinct keys whose fields are strings
  or lists of strings, \<open>replace_language_vars\<close> returns the block with the same keys
  in the same order, the placeholders replaced in every string field and in every
  element of every list field. A block with any other field (a number, a boolean,
  null, an object, or a list with an element that is not a string) is not passed
  through: the call raises \<open>AttributeError\<close>. The result is a function of the block,
  the file name, the directory and the variables table.
\<close>

theorem replace_language_vars_fields:
  "(distinct (map fst languageBlock) \<and> (\<forall>kx \<in> set languageBlock. substitutable (snd kx)) \<longrightarrow>
      replace_language_vars v languageBlock problemFile directory =
        Inr (map (\<lambda>kx. (fst kx, substituted v problemFile directory (snd kx))) languageBlock)) \<and>
   ((\<exists>kx \<in> set languageBlock. \<not> substitutable (snd kx)) \<longrightarrow>
      replace_language_vars v languageBlock problemFile directory = Inl AttributeError)"
proof (intro conjI impI)
  assume "distinct (map fst languageBlock) \<and> (\<forall>kx \<in> set languageBlock. substitutable (snd kx))"
  then show "replace_language_vars v languageBlock problemFile directory =
        Inr (map (\<lambda>kx. (fst kx, substituted v problemFile directory (snd kx))) languageBlock)"
    using replace_items_ok [of "[]" languageBlock v problemFile directory]
    by (simp add: replace_language_vars_def)
next
  assume bad: "\<exists>kx \<in> set languageBlock. \<not> substitutable (snd kx)"
  show "replace_language_vars v languageBlock problemFile directory = Inl AttributeError"
  proof (cases "replace_items v problemFile directory languageBlock []")
    case (Inl err)
    then show ?thesis using replace_items_error [OF Inl] by (simp add: replace_language_vars_def)
  next
    case (Inr r)
    from replace_items_result [OF Inr] bad show ?thesis by blast
  qed
qed

theorem replace_language_vars_fields_witness:
  "replace_language_vars demo_variables demo_python ''p1.py'' ''/srv/dev/alice'' =
     Inr demo_converted"
proof -
  have ok: "distinct (map fst demo_python) \<and> (\<forall>kx \<in> set demo_python. substitutable (snd kx))"
    by (simp add: demo_python_def)
  have "map (\<lambda>kx. (fst kx, substituted demo_variables ''p1.py'' ''/srv/dev/alice'' (snd kx)))
          demo_python = demo_converted"
    by code_simp
  with replace_language_vars_fields
         [of demo_python demo_variables "''p1.py''" "''/srv/dev/alice''", THEN conjunct1, rule_format, OF ok]
  show ?thesis by simp
qed

text \<open>
  Claim C5, as stated: a field that is neither a string nor a list passes through
  unchanged without error. With a numeric field \<open>version\<close> added to a language block
  the call raises \<open>AttributeError\<close>, since an int has no method \<open>replace\<close>.
\<close>

theorem replace_language_vars_counterexample:
  "replace_language_vars demo_variables (demo_python @ [(''version'', JNumber 3)]) ''p1.py''
     ''/srv/dev/alice'' = Inl AttributeError"
  by code_simp

section \<open>Order of the substitutions\<close>

lemma replace_from_free:
  assumes "m \<notin> set s"
  shows "replace_from (m # t) new (s @ r) = s @ replace_from (m # t) new r"
  using assms by (induction s) auto

lemma not_prefix_append:
  assumes "\<not> prefix a b" and "\<not> prefix b a"
  shows "\<not> prefix a (b @ r)"
  using assms by (auto simp: prefix_append)

lemma replace_from_same:
  "replace_from (m # t) new ((m # t) @ r) = new @ replace_from (m # t) new r"
  by simp

lemma replace_from_other:
  assumes "m \<notin> set t'" and "\<not> prefix (m # t) (m # t')" and "\<not> prefix (m # t') (m # t)"
  shows "replace_from (m # t) new ((m # t') @ r) = (m # t') @ replace_from (m # t) new r"
proof -
  have "\<not> prefix (m # t) ((m # t') @ r)"
    using not_prefix_append [OF assms(2,3)] .
  then have "replace_from (m # t) new ((m # t') @ r) = m # replace_from (m # t) new (t' @ r)"
    by simp
  then show ?thesis using replace_from_free [OF assms(1)] by simp
qed

lemma delimited_marker:
  assumes "delimited m v"
  shows "\<exists>t. marker v k = m # t \<and> m \<notin> set t"
  using assms by (cases k) (auto simp: delimited_def placeholders_def split: list.splits)

lemma delimited_prefix:
  assumes "delimited m v" and "k \<noteq> k'"
  shows "\<not> prefix (marker v k) (marker v k')"
  using assms by (cases k; cases k') (auto simp: delimited_def placeholders_def)

lemma py_replace_render:
  assumes "delimited m v" and "plain m ps"
  shows "py_replace (render v ps) (marker v k) new =
         render v (map (\<lambda>p. if p = Hole k then Lit new else p) ps)"
proof -
  from delimited_marker [OF assms(1)] obtain t where t: "marker v k = m # t" "m \<notin> set t"
    by blast
  have "replace_from (m # t) new (render v ps) =
        render v (map (\<lambda>p. if p = Hole k then Lit new else p) ps)"
    using assms(2)
  proof (induction ps)
    case Nil
    show ?case by simp
  next
    case (Cons p ps)
    then have ps: "plain m ps" by (auto simp: plain_def)
    show ?case
    proof (cases p)
      case (Lit s)
      with Cons.prems have "m \<notin> set s" by (auto simp: plain_def)
      then show ?thesis using Lit Cons.IH [OF ps] replace_from_free [of m s t new "render v ps"]
        by simp
    next
      case (Hole k')
      show ?thesis
      proof (cases "k' = k")
        case True
        then show ?thesis using Hole t Cons.IH [OF ps] replace_from_same [of m t new "render v ps"]
          by simp
      next
        case False
        from delimited_marker [OF assms(1)] obtain t' where
          t': "marker v k' = m # t'" "m \<notin> set t'"
          by blast
        have np: "\<not> prefix (m # t) (m # t')" "\<not> prefix (m # t') (m # t)"
          using delimited_prefix [OF assms(1), of k k'] delimited_prefix [OF assms(1), of k' k]
            False t t'
          by auto
        show ?thesis
          using False Hole t' Cons.IH [OF ps] replace_from_other [OF t'(2) np, of new "render v ps"]
          by simp
      qed
    qed
  qed
  then show ?thesis using t by (simp add: py_replace_def)
qed

lemma plain_fill_one:
  assumes "plain m ps" and "m \<notin> set (pvalue problemFile directory k)"
  shows "plain m (fill_one problemFile directory k ps)"
  using assms by (auto simp: plain_def fill_one_def list_all_iff split: piece.splits)

lemma splitext_subset: "set (fst (splitext p)) \<subseteq> set p"
  by (auto simp: splitext_def Let_def dest: in_set_takeD)

lemma pvalue_free:
  assumes "m \<notin> set problemFile" and "m \<notin> set directory"
  shows "m \<notin> set (pvalue problemFile directory k)"
  using assms splitext_subset [of problemFile] by (cases k) auto

lemma replace_in_order_render:
  assumes "delimited m v" and "plain m ps"
    and "m \<notin> set problemFile" and "m \<notin> set directory"
  shows "replace_in_order v problemFile directory ks (render v ps) =
         render v (fold (fill_one problemFile directory) ks ps)"
  using assms(2)
proof (induction ks arbitrary: ps)
  case Nil
  show ?case by (simp add: replace_in_order_def)
next
  case (Cons k ks)
  have pl: "plain m (fill_one problemFile directory k ps)"
    by (rule plain_fill_one [OF Cons.prems pvalue_free [OF assms(3,4)]])
  have "py_replace (render v ps) (marker v k) (pvalue problemFile directory k) =
        render v (fill_one problemFile directory k ps)"
    using py_replace_render [OF assms(1) Cons.prems] by (simp add: fill_one_def)
  then show ?case using Cons.IH [OF pl] by (simp add: replace_in_order_def)
qed

lemma fold_fill_one:
  "fold (fill_one problemFile directory) ks ps =
   map (\<lambda>p. case p of Lit s \<Rightarrow> Lit s
        | Hole k \<Rightarrow> if k \<in> set ks then Lit (pvalue problemFile directory k) else Hole k) ps"
proof (induction ks arbitrary: ps)
  case Nil
  show ?case by (simp add: map_idI split: piece.splits)
next
  case (Cons k ks)
  show ?case
    unfolding fold_simps Cons.IH
    by (auto simp: fill_one_def split: piece.splits)
qed

lemma render_filled:
  assumes "\<forall>k. k \<in> set ks"
  shows "render v (fold (fill_one problemFile directory) ks ps) = fill problemFile directory ps"
  unfolding fold_fill_one using assms
proof (induction ps)
  case Nil
  show ?case by simp
next
  case (Cons p ps)
  then show ?case by (cases p) auto
qed

text \<open>
  Claim C6, amended: with delimited placeholders (a common first character that occurs
  nowhere else in the markers, in the literal text of the template, in the file name
  or in the directory, and no marker a prefix of another), the result of
  \<open>replace_language_vars_individual\<close> on a template is the template with every hole
  filled by its value, and replacing the three placeholders one after the other in
  any order gives this same result.
\<close>

theorem substitution_order_independent:
  assumes "delimited m v" and "plain m ps"
    and "m \<notin> set problemFile" and "m \<notin> set directory"
  shows "replace_language_vars_individual v (JString (render v ps)) problemFile directory =
           Inr (fill problemFile directory ps) \<and>
         (\<forall>ks. set ks = {Filename, FilenameLessExtension, Directory} \<longrightarrow>
            replace_in_order v problemFile directory ks (render v ps) =
            fill problemFile directory ps)"
proof -
  have all: "set ks = {Filename, FilenameLessExtension, Directory} \<Longrightarrow> \<forall>k. k \<in> set ks" for ks
  proof
    fix k assume "set ks = {Filename, FilenameLessExtension, Directory}"
    then show "k \<in> set ks" by (cases k) auto
  qed
  have ord: "replace_in_order v problemFile directory ks (render v ps) =
             fill problemFile directory ps"
    if "set ks = {Filename, FilenameLessExtension, Directory}" for ks
    using replace_in_order_render [OF assms] render_filled [OF all [OF that]] by simp
  have "replace_language_vars_individual v (JString (render v ps)) problemFile directory =
        Inr (replace_in_order v problemFile directory
               [Filename, FilenameLessExtension, Directory] (render v ps))"
    by (simp add: replace_in_order_def)
  then show ?thesis using ord by auto
qed

lemma demo_delimited: "delimited (CHR ''{'') demo_variables"
  by code_simp

theorem substitution_order_independent_witness:
  "replace_language_vars_individual demo_variables
     (JString ''javac -d {directory} {directory}/{filename} # {filename_less_extension}.class'')
     ''p1.java'' ''/srv/dev/alice''
   = Inr ''javac -d /srv/dev/alice /srv/dev/alice/p1.java # p1.class'' \<and>
   replace_in_order demo_variables ''p1.java'' ''/srv/dev/alice''
     [Directory, FilenameLessExtension, Filename, Directory]
     ''javac -d {directory} {directory}/{filename} # {filename_less_extension}.class''
   = ''javac -d /srv/dev/alice /srv/dev/alice/p1.java # p1.class''"
proof -
  let ?ps = "[Lit ''javac -d '', Hole Directory, Lit '' '', Hole Directory, Lit ''/'',
              Hole Filename, Lit '' # '', Hole FilenameLessExtension, Lit ''.class'']"
  have pl: "plain (CHR ''{'') ?ps" by (simp add: plain_def)
  have r: "render demo_variables ?ps =
           ''javac -d {directory} {directory}/{filename} # {filename_less_extension}.class''"
    by (simp add: demo_variables_def)
  have f: "fill ''p1.java'' ''/srv/dev/alice'' ?ps =
           ''javac -d /srv/dev/alice /srv/dev/alice/p1.java # p1.class''"
    by code_simp
  have s: "set [Directory, FilenameLessExtension, Filename, Directory] =
           {Filename, FilenameLessExtension, Directory}" by auto
  from substitution_order_independent
         [OF demo_delimited pl, of "''p1.java''" "''/srv/dev/alice''"] s
  show ?thesis unfolding r f by simp
qed

text \<open>
  Claim C6, as stated: the substitution never matches partially, for every placeholder
  mapping. With the markers \<open>filename\<close> and \<open>filename_less_extension\<close>, the first a
  substring of the second, the replacement of \<open>filename\<close> comes first and cuts into
  the other placeholder, and the other order gives a different result.
\<close>

theorem substitution_order_counterexample:
  "let v = demo_variables\<lparr>var_filename := ''filename'',
             var_filename_less_extension := ''filename_less_extension''\<rparr>
   in replace_language_vars_individual v (JString ''filename_less_extension'') ''p1.py''
        ''/srv/dev/alice'' = Inr ''p1.py_less_extension'' \<and>
      replace_in_order v ''p1.py'' ''/srv/dev/alice''
        [Filename, FilenameLessExtension, Directory] ''filename_less_extension''
        = ''p1.py_less_extension'' \<and>
      replace_in_order v ''p1.py'' ''/srv/dev/alice''
        [FilenameLessExtension, Filename, Directory] ''filename_less_extension''
        = ''p1''"
  by code_simp

section \<open>The runs of a batch\<close>





text \<open>
  A run that exits with a non-zero status after an earlier run was captured: the
  handler adds a Run holding the values of the earlier run, and the loop goes on.
\<close>

lemma run_loop_failure:
  assumes "files w f = Some stdin" and "argv_strings cmd = Inr argv"
    and "check_output e argv stdin w = ((status, text), w1)" and "status \<noteq> 0"
  shows "run_loop e d cmd od (f # rest) (Some (earlier_output, earlier_expected)) results w =
         run_loop e d cmd od rest (Some (earlier_output, earlier_expected))
           (results @ [\<lparr>userOutput = earlier_output, correctOutput = earlier_expected,
                         inputFile = f\<rparr>]) w1"
  using assms by simp

text \<open>
  Claim C3. A run that exits with a non-zero status is to add a Run to the batch and
  let the batch go on, also when it is the first input. The handler of
  \<open>CalledProcessError\<close> reads \<open>output\<close> and \<open>outputFileContents\<close>, which are unbound
  until a run has succeeded: when the first run fails, \<open>run_solution\<close> raises
  \<open>UnboundLocalError\<close>, no Run is added, the second input is never run, and the
  exception leaves \<open>test_solution\<close> too.
\<close>

theorem run_solution_first_failure:
  "run_solution failing_env demo_definitions demo_converted ''/srv/dev/alice/output''
     [''/srv/dev/tests/p1_sample.in'', ''/srv/dev/tests/p1_corner.in''] demo_world
   = Inl (UnboundLocalError ''output'') \<and>
   test_solution failing_env demo_definitions demo_variables [demo_python] ''/srv/dev'' 1
     ''alice'' False False False False demo_world
   = Inl (UnboundLocalError ''output'')"
proof -
  have "raised (run_solution failing_env demo_definitions demo_converted ''/srv/dev/alice/output''
     [''/srv/dev/tests/p1_sample.in'', ''/srv/dev/tests/p1_corner.in''] demo_world)
     = Some (UnboundLocalError ''output'')"
    by code_simp
  moreover have "raised (test_solution failing_env demo_definitions demo_variables [demo_python]
     ''/srv/dev'' 1 ''alice'' False False False False demo_world)
     = Some (UnboundLocalError ''output'')"
    by code_simp
  ultimately show ?thesis by (simp add: raisedD)
qed

section \<open>The reports of a batch\<close>

lemma lower_labels: "lower ''SAMPLE'' = ''sample''" "lower ''CORNER'' = ''corner''"
  by (simp_all add: lower_def lower_char_def)

lemma report_loop_files:
  assumes "report_loop e d v base problem user gH oH conv runs n w = Inr (n', w')"
    and "isfile w p"
  shows "isfile w' p"
  using assms
proof (induction runs arbitrary: n w)
  case Nil
  then show ?case by simp
next
  case (Cons r runs)
  show ?case
  proof (cases "userOutput r \<noteq> correctOutput r")
    case False
    with Cons.prems show ?thesis using Cons.IH by simp
  next
    case True
    with Cons.prems obtain w1 where
      step: "report_loop e d v base problem user gH oH conv runs n w1 = Inr (n', w')"
      and keep: "isfile w1 p"
      by (auto simp: Let_def isfile_def write_file_def print_def
               split: option.splits json.splits if_splits)
    from Cons.IH [OF step keep] show ?thesis .
  qed
qed

lemma report_loop_count:
  assumes "report_loop e d v base problem user gH oH conv runs n w = Inr (n', w')"
  shows "n' = n + length (filter (\<lambda>r. userOutput r = correctOutput r) runs)"
  using assms
proof (induction runs arbitrary: n w)
  case Nil
  then show ?case by simp
next
  case (Cons r runs)
  show ?case
  proof (cases "userOutput r \<noteq> correctOutput r")
    case False
    with Cons.prems show ?thesis using Cons.IH [of "n + 1" w] by simp
  next
    case True
    with Cons.prems obtain w1 where
      "report_loop e d v base problem user gH oH conv runs n w1 = Inr (n', w')"
      by (auto simp: Let_def split: option.splits json.splits if_splits)
    from Cons.IH [OF this] True show ?thesis by simp
  qed
qed

text \<open>
  Claim C10. The reports printed by the loop over the runs are, in order, one line
  per mismatching run, labelled \<open>SAMPLE\<close> when the input file of the run is the
  sample-case file and \<open>CORNER\<close> for every other input file, the generated case
  included. With HTML diffs on, the diff file of a mismatching run exists afterwards
  under the name built with \<open>sample\<close> for the sample-case file and \<open>corner\<close> for every
  other input file.
\<close>

theorem report_loop_case_type:
  assumes "report_loop e d v base problem user generateHTML openHTML conv runs n w = Inr (n', w')"
  shows "out w' = out w @
           map (\<lambda>r. Failed (if inputFile r = sampleFile d v base problem then ''SAMPLE''
                             else ''CORNER'')
                       user problem (the (map_of conv ''language'')))
             (filter (\<lambda>r. userOutput r \<noteq> correctOutput r) runs) \<and>
         (generateHTML \<longrightarrow>
            (\<forall>r \<in> set runs. userOutput r \<noteq> correctOutput r \<longrightarrow>
               (\<exists>language. map_of conv ''language'' = Some (JString language) \<and>
                  isfile w'
                    (path_join (userOutputDirectory d base user)
                       (py_replace
                          (py_replace
                             (py_replace (html_diff_naming d) (var_case_type v)
                                (if inputFile r = sampleFile d v base problem then ''sample''
                                 else ''corner''))
                             (var_language v) language)
                          (var_problem_number v) (str_int problem))))))"
  using assms
proof (induction runs arbitrary: n w)
  case Nil
  then show ?case by simp
next
  case (Cons r runs)
  show ?case
  proof (cases "userOutput r \<noteq> correctOutput r")
    case False
    with Cons.prems have "report_loop e d v base problem user generateHTML openHTML conv runs
                            (n + 1) w = Inr (n', w')" by simp
    from Cons.IH [OF this] False show ?thesis by simp
  next
    case True
    from Cons.prems True obtain language where lang: "map_of conv ''language'' = Some language"
      by (auto split: option.splits)
    let ?label = "if inputFile r = sampleFile d v base problem then ''SAMPLE'' else ''CORNER''"
    let ?w1 = "print (Failed ?label user problem language) w"
    show ?thesis
    proof (cases generateHTML)
      case False
      with Cons.prems True lang
      have "report_loop e d v base problem user generateHTML openHTML conv runs n ?w1 = Inr (n', w')"
        by (simp add: Let_def itemType_def)
      from Cons.IH [OF this] True lang False show ?thesis by (simp add: print_def)
    next
      case gen: True
      from Cons.prems True lang gen obtain l where l: "language = JString l"
        by (auto simp: Let_def split: json.splits)
      let ?f = "diffFile d v base problem user ?label l"
      let ?w2 = "write_file ?f (make_diff e (userOutput r) (correctOutput r)) ?w1"
      let ?w3 = "if openHTML then ?w2\<lparr>browser := browser ?w2 @ [?f]\<rparr> else ?w2"
      from Cons.prems True lang gen l
      have step: "report_loop e d v base problem user generateHTML openHTML conv runs n ?w3
                  = Inr (n', w')"
        by (cases "inputFile r = sampleFile d v base problem"; cases openHTML)
           (simp_all add: Let_def itemType_def)
      have "isfile ?w3 ?f" by (simp add: isfile_def write_file_def)
      from report_loop_files [OF step this] have here: "isfile w' ?f" .
      have name: "?f = path_join (userOutputDirectory d base user)
                       (py_replace
                          (py_replace
                             (py_replace (html_diff_naming d) (var_case_type v)
                                (if inputFile r = sampleFile d v base problem then ''sample''
                                 else ''corner''))
                             (var_language v) l)
                          (var_problem_number v) (str_int problem))"
        by (simp add: diffFile_def lower_labels)
      have o: "out ?w3 = out w @ [Failed ?label user problem language]"
        by (simp add: print_def write_file_def)
      from Cons.IH [OF step] True lang l gen here name o show ?thesis by simp
    qed
  qed
qed


theorem report_loop_case_type_witness:
  "\<exists>n' w'.
     report_loop demo_env demo_definitions demo_variables ''/srv/dev'' 1 ''alice'' True False
       demo_converted
       [\<lparr>userOutput = ''41'', correctOutput = ''42'',
         inputFile = generatedFile demo_definitions demo_variables ''/srv/dev'' 1\<rparr>]
       0 demo_world = Inr (n', w') \<and>
     generatedFile demo_definitions demo_variables ''/srv/dev'' 1 \<noteq>
       sampleFile demo_definitions demo_variables ''/srv/dev'' 1 \<and>
     out w' = [Failed ''CORNER'' ''alice'' 1 (JString ''python3'')] \<and>
     isfile w' ''/srv/dev/alice/output/diff_corner_python3_1.html''"
proof -
  let ?r = "\<lparr>userOutput = ''41'', correctOutput = ''42'',
         inputFile = generatedFile demo_definitions demo_variables ''/srv/dev'' 1\<rparr>"
  have "returned (report_loop demo_env demo_definitions demo_variables ''/srv/dev'' 1 ''alice''
          True False demo_converted [?r] 0 demo_world) = Some 0"
    by code_simp
  then obtain w' where
    r: "report_loop demo_env demo_definitions demo_variables ''/srv/dev'' 1 ''alice''
          True False demo_converted [?r] 0 demo_world = Inr (0, w')"
    by (auto dest: returnedD)
  have ne: "generatedFile demo_definitions demo_variables ''/srv/dev'' 1 \<noteq>
       sampleFile demo_definitions demo_variables ''/srv/dev'' 1"
    by code_simp
  have lang: "map_of demo_converted ''language'' = Some (JString ''python3'')"
    by (simp add: demo_converted_def)
  have name: "path_join (userOutputDirectory demo_definitions ''/srv/dev'' ''alice'')
                (py_replace
                   (py_replace
                      (py_replace (html_diff_naming demo_definitions) (var_case_type demo_variables)
                         ''corner'')
                      (var_language demo_variables) ''python3'')
                   (var_problem_number demo_variables) (str_int 1))
              = ''/srv/dev/alice/output/diff_corner_python3_1.html''"
    by code_simp
  from report_loop_case_type [OF r] ne lang name
  have "out w' = [Failed ''CORNER'' ''alice'' 1 (JString ''python3'')] \<and>
        isfile w' ''/srv/dev/alice/output/diff_corner_python3_1.html''"
    by (simp add: demo_world_def)
  with r ne show ?thesis by blast
qed

section \<open>The verdict of test_solution\<close>

lemma length_filter_all: "length (filter P xs) = length xs \<longleftrightarrow> (\<forall>x \<in> set xs. P x)"
proof (induction xs)
  case Nil
  show ?case by simp
next
  case (Cons x xs)
  have "length (filter P xs) \<le> length xs" by (rule length_filter_le)
  then have "length (filter P xs) \<noteq> Suc (length xs)" by linarith
  with Cons show ?case by simp
qed

lemma attempt_body_outcome:
  "attempt_body e d v base problem user gH oH inputs possibleSolution languageBlock w =
     (case attempt_outcome e d v base problem user gH oH inputs (possibleSolution, languageBlock) w of
        Inl err \<Rightarrow> Inl err
      | Inr (a, w') \<Rightarrow> Inr (attempt_correct a, w'))"
proof -
  have count: "report_loop e d v base problem user gH oH conv results 0 w2 = Inr (k, w3) \<Longrightarrow>
               (k = length results) = (\<forall>r \<in> set results. userOutput r = correctOutput r)"
    for conv results w2 k w3
    using report_loop_count [of e d v base problem user gH oH conv results 0 w2 k w3]
      length_filter_all [of "\<lambda>r. userOutput r = correctOutput r" results]
    by simp
  show ?thesis
    unfolding attempt_body_def attempt_outcome_def
    by (auto split: sum.splits prod.splits dest: count)
qed

lemma solution_loop_attempts:
  assumes "solution_loop e d v base problem user gH oH inputs pairs (n, c) w = Inr ((n', c'), w')"
  shows "\<exists>as. run_attempts e d v base problem user gH oH inputs
                 (filter (is_solution d v problem) pairs) w = Inr (as, w') \<and>
              length as = length (filter (is_solution d v problem) pairs) \<and>
              n' = n + length as \<and> c' = c + length (filter attempt_correct as)"
  using assms
proof (induction pairs arbitrary: n c w)
  case Nil
  then show ?case by simp
next
  case (Cons pair pairs)
  obtain ps lb where pair: "pair = (ps, lb)" by (cases pair)
  from Cons.prems pair obtain extension where ext: "get_source_extension lb = Inr (JString extension)"
    by (auto split: sum.splits json.splits)
  show ?case
  proof (cases "ps = problemString d v problem @ ''.'' @ extension")
    case False
    then have no: "\<not> is_solution d v problem pair" using pair ext by (simp add: is_solution_def)
    from Cons.prems pair ext False
    have "solution_loop e d v base problem user gH oH inputs pairs (n, c) w = Inr ((n', c'), w')"
      by simp
    from Cons.IH [OF this] no show ?thesis by simp
  next
    case True
    then have yes: "is_solution d v problem pair" using pair ext by (simp add: is_solution_def)
    from Cons.prems pair ext True obtain a w1 where
      a: "attempt_outcome e d v base problem user gH oH inputs pair w = Inr (a, w1)"
      and rest: "solution_loop e d v base problem user gH oH inputs pairs
                   (n + 1, if attempt_correct a then c + 1 else c) w1 = Inr ((n', c'), w')"
      by (auto simp: attempt_body_outcome split: sum.splits prod.splits)
    from Cons.IH [OF rest] obtain as where as:
      "run_attempts e d v base problem user gH oH inputs
         (filter (is_solution d v problem) pairs) w1 = Inr (as, w')"
      "length as = length (filter (is_solution d v problem) pairs)"
      "n' = n + 1 + length as"
      "c' = (if attempt_correct a then c + 1 else c) + length (filter attempt_correct as)"
      by blast
    show ?thesis
      using yes a as by (intro exI [of _ "a # as"]) simp
  qed
qed

text \<open>
  Claim C1. When \<open>test_solution\<close> returns a verdict: for a user that is not valid
  the verdict is False and nothing but the report happens. For a valid user, there is
  one attempt per solution file found (a file of the user's directory named as the
  problem with the source extension of a language); the verdict is True exactly when
  at least one solution was found and every attempt is correct, that is, it compiled
  and every Run of its batch matches; an attempt that failed to compile is not run, is
  among the attempts, and makes the verdict False; and when no solution was found the
  verdict is False and this is reported.
\<close>

theorem test_solution_verdict:
  assumes "test_solution e d v languages base problem user skipSample skipCorner generateHTML
             openHTML w = Inr (passed, w')"
  shows "if valid_user d base user w then
           (let w1 = ensure_output_directory d base user w;
                found = solutions_found d v languages base problem user w1
            in \<exists>attempts w2.
                 run_attempts e d v base problem user generateHTML openHTML
                   (inputFileList d v base problem skipSample skipCorner w1) found w1
                   = Inr (attempts, w2) \<and>
                 length attempts = length found \<and>
                 passed = (found \<noteq> [] \<and> (\<forall>a \<in> set attempts. attempt_correct a)) \<and>
                 (CompileFailed \<in> set attempts \<longrightarrow> \<not> passed) \<and>
                 w' = (if found = [] then print (NoProblem user problem) w2 else w2))
         else \<not> passed \<and> w' = print (NotValidUser user) w"
proof (cases "valid_user d base user w")
  case False
  with assms show ?thesis by (auto simp: test_solution_def)
next
  case True
  let ?w1 = "ensure_output_directory d base user w"
  let ?found = "solutions_found d v languages base problem user ?w1"
  let ?inputs = "inputFileList d v base problem skipSample skipCorner ?w1"
  from assms True obtain n c w2 where
    loop: "solution_loop e d v base problem user generateHTML openHTML ?inputs
             (List.product (listing ?w1 (userPath base user)) languages) (0, 0) ?w1
           = Inr ((n, c), w2)"
    and verdict: "passed = (n \<noteq> 0 \<and> c = n)"
    and world: "w' = (if n = 0 then print (NoProblem user problem) w2 else w2)"
    by (auto simp: test_solution_def Let_def split: sum.splits prod.splits if_splits)
  from solution_loop_attempts [OF loop] obtain as where as:
    "run_attempts e d v base problem user generateHTML openHTML ?inputs ?found ?w1 = Inr (as, w2)"
    "length as = length ?found" "n = length as" "c = length (filter attempt_correct as)"
    by (auto simp: solutions_found_def)
  have all: "(c = n) = (\<forall>a \<in> set as. attempt_correct a)"
    using as(3,4) length_filter_all [of attempt_correct as] by simp
  have nonempty: "(n = 0) = (?found = [])" using as(2,3) by auto
  have cf: "CompileFailed \<in> set as \<longrightarrow> \<not> passed"
    using verdict all by auto
  have "\<exists>attempts w2.
                 run_attempts e d v base problem user generateHTML openHTML ?inputs ?found ?w1
                   = Inr (attempts, w2) \<and>
                 length attempts = length ?found \<and>
                 passed = (?found \<noteq> [] \<and> (\<forall>a \<in> set attempts. attempt_correct a)) \<and>
                 (CompileFailed \<in> set attempts \<longrightarrow> \<not> passed) \<and>
                 w' = (if ?found = [] then print (NoProblem user problem) w2 else w2)"
    using as(1,2) verdict all nonempty cf world by (intro exI [of _ as] exI [of _ w2]) simp
  with True show ?thesis by (simp add: Let_def)
qed

theorem test_solution_verdict_witness:
  "\<exists>w'. test_solution demo_env demo_definitions demo_variables [demo_python] ''/srv/dev'' 1
           ''alice'' False False False False demo_world = Inr (True, w') \<and>
         valid_user demo_definitions ''/srv/dev'' ''alice'' demo_world \<and>
         solutions_found demo_definitions demo_variables [demo_python] ''/srv/dev'' 1 ''alice''
           (ensure_output_directory demo_definitions ''/srv/dev'' ''alice'' demo_world) \<noteq> [] \<and>
         (\<exists>attempts w2.
            run_attempts demo_env demo_definitions demo_variables ''/srv/dev'' 1 ''alice'' False False
              (inputFileList demo_definitions demo_variables ''/srv/dev'' 1 False False
                 (ensure_output_directory demo_definitions ''/srv/dev'' ''alice'' demo_world))
              (solutions_found demo_definitions demo_variables [demo_python] ''/srv/dev'' 1 ''alice''
                 (ensure_output_directory demo_definitions ''/srv/dev'' ''alice'' demo_world))
              (ensure_output_directory demo_definitions ''/srv/dev'' ''alice'' demo_world)
            = Inr (attempts, w2) \<and>
            (\<forall>a \<in> set attempts. attempt_correct a))"
proof -
  have "returned (test_solution demo_env demo_definitions demo_variables [demo_python]
          ''/srv/dev'' 1 ''alice'' False False False False demo_world) = Some True"
    by code_simp
  then obtain w' where t: "test_solution demo_env demo_definitions demo_variables [demo_python]
          ''/srv/dev'' 1 ''alice'' False False False False demo_world = Inr (True, w')"
    by (auto dest: returnedD)
  have v: "valid_user demo_definitions ''/srv/dev'' ''alice'' demo_world"
    by code_simp
  from test_solution_verdict [OF t] v show ?thesis
    using t by (auto simp: Let_def)
qed


end
